theory Spec2Isabelle
  imports Complex_Main
begin

section \<open>Strings\<close>

text \<open>JavaScript strings are modelled as \<open>string\<close>; only ASCII text is in the model.\<close>

definition startsWith :: "string \<Rightarrow> string \<Rightarrow> bool" where
  "startsWith s p = (take (length p) s = p)"

text \<open>\<open>String.prototype.includes\<close>.\<close>

fun includes_str :: "string \<Rightarrow> string \<Rightarrow> bool" where
  "includes_str [] p = (p = [])"
| "includes_str (c # cs) p = (startsWith (c # cs) p \<or> includes_str cs p)"

text \<open>\<open>String.prototype.replace\<close> with a string pattern: only the first occurrence is
  replaced. The replacement strings used by the program contain no \<open>$\<close>.\<close>

fun replaceFirst :: "string \<Rightarrow> string \<Rightarrow> string \<Rightarrow> string" where
  "replaceFirst p r [] = (if p = [] then r else [])"
| "replaceFirst p r (c # cs) =
     (if startsWith (c # cs) p then r @ drop (length p) (c # cs)
      else c # replaceFirst p r cs)"

definition isLower :: "char \<Rightarrow> bool" where
  "isLower c = (c \<in> set ''abcdefghijklmnopqrstuvwxyz'')"

definition isUpper :: "char \<Rightarrow> bool" where
  "isUpper c = (c \<in> set ''ABCDEFGHIJKLMNOPQRSTUVWXYZ'')"

definition isDigit :: "char \<Rightarrow> bool" where
  "isDigit c = (c \<in> set ''0123456789'')"

definition isAlnum :: "char \<Rightarrow> bool" where
  "isAlnum c = (isLower c \<or> isUpper c \<or> isDigit c)"

text \<open>Printable ASCII without the space: the characters a URL string of the model may hold.\<close>

definition isPrintable :: "char \<Rightarrow> bool" where
  "isPrintable c = (33 \<le> (of_char c :: nat) \<and> (of_char c :: nat) \<le> 126)"

text \<open>\<open>String.prototype.split\<close> with a one-character separator.\<close>

fun splitOn :: "char \<Rightarrow> string \<Rightarrow> string list" where
  "splitOn d [] = [[]]"
| "splitOn d (c # cs) =
     (if c = d then [] # splitOn d cs
      else (case splitOn d cs of [] \<Rightarrow> [[c]] | w # ws \<Rightarrow> (c # w) # ws))"

section \<open>Configuration (constants.ts)\<close>

datatype ApiEnvironment = SANDBOX | PRODUCTION

fun DOMAIN_NAME :: "ApiEnvironment \<Rightarrow> string" where
  "DOMAIN_NAME SANDBOX = ''api.sandbox.ebay.com''"
| "DOMAIN_NAME PRODUCTION = ''api.ebay.com''"

text \<open>\<open>Object.entries(DOMAIN_NAME)\<close>, in declaration order.\<close>

definition DOMAIN_NAME_entries :: "(ApiEnvironment \<times> string) list" where
  "DOMAIN_NAME_entries = [(SANDBOX, DOMAIN_NAME SANDBOX), (PRODUCTION, DOMAIN_NAME PRODUCTION)]"

section \<open>The platform's URL class, on plain http(s) URLs\<close>

text \<open>
  \<open>new URL(s)\<close> is modelled on a fragment of its inputs and says so when it is outside:
  \<^item> \<open>UrlThrows\<close>: the constructor throws. The model says this only for a string of
    printable ASCII characters that does not start with a scheme
    (\<open>[A-Za-z][A-Za-z0-9+.-]*:\<close>): with no base URL such a string is never a URL.
  \<^item> \<open>UrlOk\<close>: the string is \<open>http://\<close> or \<open>https://\<close>, a host of lower-case labels
    made of letters and digits and separated by single dots, the last label starting with a
    letter (so the host is not read as an IPv4 address), a path of letters, digits and
    \<open>/ _ ~ - { }\<close> and the escapes \<open>%7B\<close>, \<open>%7D\<close>, and a query of letters, digits and
    \<open>= & _ - . ~ ,\<close>. The parser percent-encodes the braces of the path and puts \<open>/\<close> for
    an empty path; everything else is kept as written.
  \<^item> \<open>UrlOutside\<close>: any other string (ports, user info, fragments, upper-case hosts, dot
    segments, other schemes, ...). The model makes no statement about them.
\<close>

record url =
  protocol :: string
  hostname :: string
  pathname :: string
  rawQuery :: string

datatype url_result = UrlOk url | UrlThrows | UrlOutside

definition isSchemeChar :: "char \<Rightarrow> bool" where
  "isSchemeChar c = (isAlnum c \<or> c \<in> set ''+-.'')"

definition hasScheme :: "string \<Rightarrow> bool" where
  "hasScheme s = (case s of [] \<Rightarrow> False
     | c # cs \<Rightarrow> (isLower c \<or> isUpper c) \<and>
         (case dropWhile isSchemeChar cs of [] \<Rightarrow> False | d # _ \<Rightarrow> d = CHR '':''))"

definition isHostChar :: "char \<Rightarrow> bool" where
  "isHostChar c = (isLower c \<or> isDigit c \<or> c = CHR ''.'')"

definition plainLabel :: "string \<Rightarrow> bool" where
  "plainLabel l = (l \<noteq> [] \<and> list_all (\<lambda>c. isLower c \<or> isDigit c) l)"

definition plainHost :: "string \<Rightarrow> bool" where
  "plainHost h = (let ls = splitOn (CHR ''.'') h in
     list_all plainLabel ls \<and> (case last ls of [] \<Rightarrow> False | c # _ \<Rightarrow> isLower c))"

definition isPathChar :: "char \<Rightarrow> bool" where
  "isPathChar c = (isAlnum c \<or> c \<in> set ''/_~-{}'')"

fun plainPathChars :: "string \<Rightarrow> bool" where
  "plainPathChars [] = True"
| "plainPathChars (c # cs) =
     ((if c = CHR ''%'' then startsWith cs ''7B'' \<or> startsWith cs ''7D'' else isPathChar c)
      \<and> plainPathChars cs)"

definition plainPath :: "string \<Rightarrow> bool" where
  "plainPath p = ((p = [] \<or> hd p = CHR ''/'') \<and> plainPathChars p)"

definition isQueryChar :: "char \<Rightarrow> bool" where
  "isQueryChar c = (isAlnum c \<or> c \<in> set ''=&_-.~,'')"

definition plainQuery :: "string \<Rightarrow> bool" where
  "plainQuery q = (case q of [] \<Rightarrow> True | c # cs \<Rightarrow> c = CHR ''?'' \<and> list_all isQueryChar cs)"

text \<open>The path percent-encode set, restricted to the characters of the fragment.\<close>

fun encodePath :: "string \<Rightarrow> string" where
  "encodePath [] = []"
| "encodePath (c # cs) =
     (if c = CHR ''{'' then ''%7B'' @ encodePath cs
      else if c = CHR ''}'' then ''%7D'' @ encodePath cs
      else c # encodePath cs)"

definition stripHttpScheme :: "string \<Rightarrow> (string \<times> string) option" where
  "stripHttpScheme s =
     (if startsWith s ''https://'' then Some (''https:'', drop 8 s)
      else if startsWith s ''http://'' then Some (''http:'', drop 7 s)
      else None)"

definition newURL :: "string \<Rightarrow> url_result" where
  "newURL s =
     (if \<not> list_all isPrintable s then UrlOutside
      else if \<not> hasScheme s then UrlThrows
      else (case stripHttpScheme s of
              None \<Rightarrow> UrlOutside
            | Some (proto, rest) \<Rightarrow>
                (let host = takeWhile isHostChar rest;
                     tail = dropWhile isHostChar rest;
                     path = takeWhile (\<lambda>c. c \<noteq> CHR ''?'') tail;
                     query = dropWhile (\<lambda>c. c \<noteq> CHR ''?'') tail
                 in if plainHost host \<and> plainPath path \<and> plainQuery query
                    then UrlOk \<lparr>protocol = proto, hostname = host,
                                pathname = (if path = [] then ''/'' else encodePath path),
                                rawQuery = query\<rparr>
                    else UrlOutside)))"

text \<open>\<open>URL.prototype.toString\<close>: the serialisation \<open>href\<close>.\<close>

definition toString :: "url \<Rightarrow> string" where
  "toString u = protocol u @ ''//'' @ hostname u @ pathname u @ rawQuery u"

text \<open>\<open>decodeURIComponent\<close> on a pathname of the fragment, whose only escapes are
  \<open>%7B\<close> and \<open>%7D\<close>.\<close>

fun decodeURIComponent :: "string \<Rightarrow> string" where
  "decodeURIComponent (a # b # c # cs) =
     (if a = CHR ''%'' \<and> b = CHR ''7'' \<and> c = CHR ''B'' then CHR ''{'' # decodeURIComponent cs
      else if a = CHR ''%'' \<and> b = CHR ''7'' \<and> c = CHR ''D'' then CHR ''}'' # decodeURIComponent cs
      else a # decodeURIComponent (b # c # cs))"
| "decodeURIComponent cs = cs"

section \<open>Environment domain rewriting (http-helper.ts)\<close>

text \<open>The fallback loop of \<open>replaceDomainNameByEnvironment\<close> over the entries of
  \<open>DOMAIN_NAME\<close>: the first other environment whose domain occurs in the string has the
  first occurrence of its domain replaced.\<close>

fun replaceDomainFallback ::
  "ApiEnvironment \<Rightarrow> (ApiEnvironment \<times> string) list \<Rightarrow> string \<Rightarrow> string" where
  "replaceDomainFallback USER_ENVIRONMENT [] u = u"
| "replaceDomainFallback USER_ENVIRONMENT ((env, domain) # es) u =
     (if env \<noteq> USER_ENVIRONMENT \<and> includes_str u domain
      then replaceFirst domain (DOMAIN_NAME USER_ENVIRONMENT) u
      else replaceDomainFallback USER_ENVIRONMENT es u)"

text \<open>\<open>replaceDomainNameByEnvironment\<close>; \<open>None\<close> when the URL is outside the modelled
  fragment of the URL class.\<close>

definition replaceDomainNameByEnvironment :: "ApiEnvironment \<Rightarrow> string \<Rightarrow> string option" where
  "replaceDomainNameByEnvironment USER_ENVIRONMENT u =
     (case newURL u of
        UrlOutside \<Rightarrow> None
      | UrlOk urlObj \<Rightarrow>
          (let currentHostname = hostname urlObj;
               expectedDomain = DOMAIN_NAME USER_ENVIRONMENT
           in if currentHostname \<noteq> expectedDomain
              then Some (toString (urlObj\<lparr>hostname := expectedDomain\<rparr>))
              else Some u)
      | UrlThrows \<Rightarrow> Some (replaceDomainFallback USER_ENVIRONMENT DOMAIN_NAME_entries u))"

section \<open>Regular expressions of the path matcher (validation-helper.ts)\<close>

text \<open>\<open>s.replace(/\{[^}]+\}/g, "[^/]+")\<close>: scanning from the left, a \<open>{\<close> followed by at
  least one character other than \<open>}\<close> and then by \<open>}\<close> is a placeholder; the scan goes on
  after its closing brace.\<close>

function replacePlaceholders :: "string \<Rightarrow> string" where
  "replacePlaceholders [] = []"
| "replacePlaceholders (c # cs) =
     (if c = CHR ''{'' \<and> takeWhile (\<lambda>d. d \<noteq> CHR ''}'') cs \<noteq> []
           \<and> dropWhile (\<lambda>d. d \<noteq> CHR ''}'') cs \<noteq> []
      then ''[^/]+'' @ replacePlaceholders (tl (dropWhile (\<lambda>d. d \<noteq> CHR ''}'') cs))
      else c # replacePlaceholders cs)"
  by pat_completeness auto
termination
proof (relation "measure length")
  fix c :: char and cs :: string
  have "length (dropWhile (\<lambda>d. d \<noteq> CHR ''}'') cs) \<le> length cs"
    by (rule length_dropWhile_le)
  then have "length (tl (dropWhile (\<lambda>d. d \<noteq> CHR ''}'') cs)) \<le> length cs"
    by simp
  then show "(tl (dropWhile (\<lambda>d. d \<noteq> CHR ''}'') cs), c # cs) \<in> measure length"
    by simp
qed simp_all

text \<open>
  \<open>new RegExp(src)\<close> on the fragment of pattern sources the model reads: a sequence of
  literal characters (letters, digits and \<open>/ _ ~ - : , = @ % & ; !\<close>), of \<open>.\<close> and of the
  class \<open>[^/]+\<close>, closed by the end anchor \<open>$\<close>. Any other source (one the constructor
  rejects, or one with other operators) is \<open>None\<close>: the model makes no statement about it.
\<close>

datatype rx = Lit char | AnyChar | NotSlashPlus

definition isRxLiteral :: "char \<Rightarrow> bool" where
  "isRxLiteral c = (isAlnum c \<or> c \<in> set ''/_~-:,=@%&;!'')"

definition rxChar :: "char \<Rightarrow> rx list option \<Rightarrow> rx list option" where
  "rxChar c r =
     (if c = CHR ''.'' then map_option (\<lambda>ts. AnyChar # ts) r
      else if isRxLiteral c then map_option (\<lambda>ts. Lit c # ts) r
      else None)"

function newRegExp :: "string \<Rightarrow> rx list option" where
  "newRegExp s =
     (if s = ''$'' then Some []
      else if startsWith s ''[^/]+'' then map_option (\<lambda>ts. NotSlashPlus # ts) (newRegExp (drop 5 s))
      else (case s of [] \<Rightarrow> None | c # cs \<Rightarrow> rxChar c (newRegExp cs)))"
  by pat_completeness auto
termination
proof (relation "measure length")
  fix s :: string
  assume "startsWith s ''[^/]+''"
  then have "s \<noteq> []"
    by (auto simp: startsWith_def)
  then show "(drop 5 s, s) \<in> measure length"
    by simp
qed simp_all

declare newRegExp.simps [simp del]

definition isLineTerminator :: "char \<Rightarrow> bool" where
  "isLineTerminator c = (c = CHR 0x0A \<or> c = CHR 0x0D)"

text \<open>Matching the pattern at the start of the string, up to its end (the pattern is
  closed by \<open>$\<close>). \<open>[^/]+\<close> takes one character or more, each other than \<open>/\<close>; every
  length is tried, as backtracking does.\<close>

fun rxMatch :: "rx list \<Rightarrow> string \<Rightarrow> bool" where
  "rxMatch [] s = (s = [])"
| "rxMatch (Lit c # ts) s = (case s of [] \<Rightarrow> False | d # ds \<Rightarrow> d = c \<and> rxMatch ts ds)"
| "rxMatch (AnyChar # ts) s =
     (case s of [] \<Rightarrow> False | d # ds \<Rightarrow> \<not> isLineTerminator d \<and> rxMatch ts ds)"
| "rxMatch (NotSlashPlus # ts) s =
     (case s of [] \<Rightarrow> False
      | d # ds \<Rightarrow> d \<noteq> CHR ''/'' \<and> (rxMatch (NotSlashPlus # ts) ds \<or> rxMatch ts ds))"

text \<open>\<open>RegExp.prototype.test\<close>: the pattern is not anchored at the start, so it is tried
  at every position.\<close>

fun rxTest :: "rx list \<Rightarrow> string \<Rightarrow> bool" where
  "rxTest ts [] = rxMatch ts []"
| "rxTest ts (c # cs) = (rxMatch ts (c # cs) \<or> rxTest ts cs)"

text \<open>The regular expression built from a path template or a base path.\<close>

definition templateRegex :: "string \<Rightarrow> rx list option" where
  "templateRegex t = newRegExp (replacePlaceholders t @ ''$'')"

section \<open>JSON values and the OpenAPI document\<close>

text \<open>
  A JavaScript object is the association list of its own properties, in the order of
  \<open>Object.keys\<close> and with distinct keys. The objects of the program are plain objects
  built by \<open>JSON.parse\<close>, by the record schemas of the input and by object literals; the
  key \<open>__proto__\<close> is not among their own properties (the record schemas drop it).
  Reading a property \<open>obj[k]\<close> gives the own property when there is one, else the
  member that every plain object inherits from \<open>Object.prototype\<close> when \<open>k\<close> names one,
  else \<open>undefined\<close>, which is \<open>None\<close>.
\<close>

datatype jnum = NaN | Fin rat

text \<open>\<open>JInherited k\<close> is the member \<open>k\<close> of \<open>Object.prototype\<close>: a function, and for
  \<open>__proto__\<close> the prototype object itself.\<close>

datatype jval =
    JNull
  | JBool bool
  | JNum jnum
  | JStr string
  | JArr "jval list"
  | JObj "(string \<times> jval) list"
  | JInherited string

text \<open>Truthiness of a value.\<close>

fun jsTruthy :: "jval \<Rightarrow> bool" where
  "jsTruthy JNull = False"
| "jsTruthy (JBool b) = b"
| "jsTruthy (JNum NaN) = False"
| "jsTruthy (JNum (Fin r)) = (r \<noteq> 0)"
| "jsTruthy (JStr s) = (s \<noteq> [])"
| "jsTruthy (JArr xs) = True"
| "jsTruthy (JObj kv) = True"
| "jsTruthy (JInherited k) = True"

definition objectPrototypeNames :: "string list" where
  "objectPrototypeNames =
     [''constructor'', ''__defineGetter__'', ''__defineSetter__'', ''hasOwnProperty'',
      ''__lookupGetter__'', ''__lookupSetter__'', ''isPrototypeOf'', ''propertyIsEnumerable'',
      ''toString'', ''valueOf'', ''__proto__'', ''toLocaleString'']"

definition inherited :: "string \<Rightarrow> jval option" where
  "inherited k = (if k \<in> set objectPrototypeNames then Some (JInherited k) else None)"

text \<open>\<open>obj[k]\<close> on an object of JSON values.\<close>

definition getProperty :: "(string \<times> jval) list \<Rightarrow> string \<Rightarrow> jval option" where
  "getProperty obj k = (case map_of obj k of Some v \<Rightarrow> Some v | None \<Rightarrow> inherited k)"

datatype schema_type = TBoolean | TObject | TNumber | TString | TInteger | TArray

text \<open>A schema is a reference (\<open>$ref\<close>) or a schema object with its \<open>type\<close>, its \<open>items\<close>
  and its other keywords.\<close>

datatype schema =
    SchemaRef string
  | SchemaObject "schema_type option" "schema option" "(string \<times> jval) list"

record parameter =
  name :: string
  location :: string
  required :: "bool option"
  schema :: "schema option"
  style :: "string option"
  explode :: "bool option"

datatype parameter_or_ref = ReferenceObject string | ParameterObject parameter

text \<open>A request body object: \<open>required\<close> and, for each content type of \<open>content\<close>, the
  \<open>schema\<close> of its media type object.\<close>

record requestBodyObject =
  body_required :: "bool option"
  content :: "(string \<times> schema option) list option"

datatype requestBody_or_ref = RequestBodyRef string | RequestBodyObject requestBodyObject

record operation =
  parameters :: "parameter_or_ref list option"
  requestBody :: "requestBody_or_ref option"

text \<open>A path item: its operations, by their HTTP method keys.\<close>

type_synonym pathItem = "(string \<times> operation) list"

text \<open>\<open>specPathItem[k]\<close> read as an operation: an own operation, or an inherited member,
  which is truthy and has neither \<open>parameters\<close> nor \<open>requestBody\<close>.\<close>

definition pathItemMember :: "pathItem \<Rightarrow> string \<Rightarrow> operation option" where
  "pathItemMember item k =
     (case map_of item k of
        Some operation \<Rightarrow> Some operation
      | None \<Rightarrow> (if k \<in> set objectPrototypeNames
                 then Some \<lparr>parameters = None, requestBody = None\<rparr>
                 else None))"

record serverObject =
  server_url :: string
  variables :: "(string \<times> string) list option"

record document =
  servers :: "serverObject list option"
  paths :: "(string \<times> pathItem option) list option"

text \<open>\<open>String.prototype.toLowerCase\<close> on ASCII.\<close>

definition toLowerChar :: "char \<Rightarrow> char" where
  "toLowerChar c =
     (case map_of (zip ''ABCDEFGHIJKLMNOPQRSTUVWXYZ'' ''abcdefghijklmnopqrstuvwxyz'') c of
        Some d \<Rightarrow> d | None \<Rightarrow> c)"

definition toLowerCase :: "string \<Rightarrow> string" where
  "toLowerCase s = map toLowerChar s"

text \<open>\<open>Array.prototype.join\<close>.\<close>

fun join :: "string \<Rightarrow> string list \<Rightarrow> string" where
  "join sep [] = []"
| "join sep [x] = x"
| "join sep (x # y # ys) = x @ sep @ join sep (y # ys)"

section \<open>Path resolution (validation-helper.ts)\<close>

text \<open>The fallback of \<open>parseApiPathFromUrl\<close>: the first group of
  \<open>/https?:\/\/[^/]+(.*)$/\<close>, on a string without line terminators. At a position the
  match needs \<open>http://\<close> or \<open>https://\<close> and one character other than \<open>/\<close>; the group is
  what follows the run of such characters.\<close>

definition pathMatchAt :: "string \<Rightarrow> string option" where
  "pathMatchAt s =
     (case stripHttpScheme s of
        None \<Rightarrow> None
      | Some (proto, rest) \<Rightarrow>
          (if takeWhile (\<lambda>c. c \<noteq> CHR ''/'') rest = [] then None
           else Some (dropWhile (\<lambda>c. c \<noteq> CHR ''/'') rest)))"

fun pathMatch :: "string \<Rightarrow> string option" where
  "pathMatch [] = None"
| "pathMatch (c # cs) =
     (case pathMatchAt (c # cs) of Some g \<Rightarrow> Some g | None \<Rightarrow> pathMatch cs)"

text \<open>\<open>parseApiPathFromUrl\<close>; \<open>None\<close> when the URL is outside the modelled fragment.\<close>

definition parseApiPathFromUrl :: "string \<Rightarrow> string option" where
  "parseApiPathFromUrl inputUrl =
     (case newURL inputUrl of
        UrlOutside \<Rightarrow> None
      | UrlOk urlObj \<Rightarrow> Some (decodeURIComponent (pathname urlObj))
      | UrlThrows \<Rightarrow>
          (case pathMatch inputUrl of Some g \<Rightarrow> Some g | None \<Rightarrow> Some []))"

record pathValidation =
  pathValidateRes :: bool
  apiPath :: string
  specPath :: string
  specPathItem :: "pathItem option"

text \<open>The loop over the entries of \<open>serverObj.variables\<close>.\<close>

fun basePathOf :: "(string \<times> string) list \<Rightarrow> string \<Rightarrow> string" where
  "basePathOf [] basePath = basePath"
| "basePathOf ((key, dflt) # vs) basePath =
     basePathOf vs (if key = ''basePath'' then dflt else basePath)"

text \<open>The loop over \<open>Object.keys(openApiDoc.paths)\<close>: the first template whose regular
  expression tests true on the path and whose path item is there is returned.\<close>

fun findSpecPath ::
  "(string \<times> pathItem option) list \<Rightarrow> string list \<Rightarrow> string \<Rightarrow> pathValidation option" where
  "findSpecPath ps [] p =
     Some \<lparr>pathValidateRes = False, apiPath = p, specPath = [], specPathItem = None\<rparr>"
| "findSpecPath ps (t # ts) p =
     (case templateRegex t of
        None \<Rightarrow> None
      | Some specPathRegex \<Rightarrow>
          (case (if rxTest specPathRegex p then map_of ps t else None) of
             Some (Some item) \<Rightarrow>
               Some \<lparr>pathValidateRes = True, apiPath = p, specPath = t, specPathItem = Some item\<rparr>
           | _ \<Rightarrow> findSpecPath ps ts p))"

definition docPaths :: "document \<Rightarrow> (string \<times> pathItem option) list" where
  "docPaths openApiDoc = (case paths openApiDoc of None \<Rightarrow> [] | Some ps \<Rightarrow> ps)"

definition docBasePath :: "document \<Rightarrow> string" where
  "docBasePath openApiDoc =
     (let serverObj = (case servers openApiDoc of
                         Some (s # _) \<Rightarrow> s
                       | _ \<Rightarrow> \<lparr>server_url = [], variables = None\<rparr>)
      in case variables serverObj of None \<Rightarrow> [] | Some vs \<Rightarrow> basePathOf vs [])"

text \<open>\<open>validatePath\<close>; \<open>None\<close> when the URL or a regular expression is outside the
  modelled fragments.\<close>

definition validatePath :: "document \<Rightarrow> string \<Rightarrow> pathValidation option" where
  "validatePath openApiDoc inputUrl =
     (case parseApiPathFromUrl inputUrl of
        None \<Rightarrow> None
      | Some p \<Rightarrow>
          (if p = [] then
             Some \<lparr>pathValidateRes = False, apiPath = [], specPath = [], specPathItem = None\<rparr>
           else
             (let basePath = docBasePath openApiDoc in
              case templateRegex basePath of
                None \<Rightarrow> None
              | Some basePathRegex \<Rightarrow>
                  (if basePath \<noteq> [] \<and> \<not> rxTest basePathRegex p then
                     Some \<lparr>pathValidateRes = False, apiPath = p, specPath = [],
                           specPathItem = None\<rparr>
                   else findSpecPath (docPaths openApiDoc) (map fst (docPaths openApiDoc)) p))))"

section \<open>Request validation (validation-helper.ts)\<close>

text \<open>
  The schema validator is the library Ajv, taken as a parameter: \<open>ajv schema\<close> is
  \<open>ajv.compile(schema)\<close>, \<open>None\<close> when compilation throws, and else the validating
  function, which gives \<open>None\<close> on a valid value and \<open>Some\<close> of
  \<open>ajv.errorsText(validate.errors)\<close> on an invalid one. The validation functions return
  \<open>None\<close> where the source leaves by such an exception or leaves the modelled fragments.
  The validators of the path, the query and the headers each make an instance with
  \<open>allErrors\<close>; the validator of the body makes one with \<open>allErrors\<close> and without strict
  mode, which is a second parameter (\<open>ajvLoose\<close>) wherever both are used.
\<close>

type_synonym ajv = "schema \<Rightarrow> (jval \<Rightarrow> string option) option"

definition truthy :: "bool option \<Rightarrow> bool" where
  "truthy b = (b = Some True)"

text \<open>Compile the schema, validate the value and push \<open>msg\<close> with the error text on a
  failure.\<close>

definition checkSchema :: "ajv \<Rightarrow> schema \<Rightarrow> jval \<Rightarrow> string \<Rightarrow> string list \<Rightarrow> string list option" where
  "checkSchema ajv sch v msg errors =
     (case ajv sch of
        None \<Rightarrow> None
      | Some validate \<Rightarrow>
          (case validate v of
             None \<Rightarrow> Some errors
           | Some errorsText \<Rightarrow> Some (errors @ [msg @ errorsText])))"

definition paramsIn :: "string \<Rightarrow> parameter_or_ref list option \<Rightarrow> parameter list" where
  "paramsIn loc ps =
     concat (map (\<lambda>p. case p of ReferenceObject r \<Rightarrow> []
                            | ParameterObject q \<Rightarrow> (if location q = loc then [q] else []))
                 (case ps of None \<Rightarrow> [] | Some l \<Rightarrow> l))"

fun pathParamLoop ::
  "ajv \<Rightarrow> (string \<times> jval) list \<Rightarrow> parameter list \<Rightarrow> string list \<Rightarrow> string list option" where
  "pathParamLoop ajv urlVariables [] errors = Some errors"
| "pathParamLoop ajv urlVariables (param # ps) errors =
     (let v = getProperty urlVariables (name param) in
      if truthy (required param) \<and> (v = None \<or> v = Some JNull) then
        pathParamLoop ajv urlVariables ps
          (errors @ [''Missing required path parameter: '' @ name param])
      else
        (case (v, schema param) of
           (Some x, Some sch) \<Rightarrow>
             (case checkSchema ajv sch x (''Invalid path parameter '' @ name param @ '': '') errors of
                None \<Rightarrow> None
              | Some errors' \<Rightarrow> pathParamLoop ajv urlVariables ps errors')
         | _ \<Rightarrow> pathParamLoop ajv urlVariables ps errors))"

definition validateUrlPathParam ::
  "ajv \<Rightarrow> (string \<times> jval) list option \<Rightarrow> parameter_or_ref list option \<Rightarrow> string list
     \<Rightarrow> string list option" where
  "validateUrlPathParam ajv urlVariables params errors =
     (case urlVariables of
        None \<Rightarrow> Some errors
      | Some vars \<Rightarrow>
          (let pathParams = paramsIn ''path'' params in
           case pathParamLoop ajv vars pathParams errors of
             None \<Rightarrow> None
           | Some errors1 \<Rightarrow>
               (let definedPathParams = map name pathParams;
                    extraParams = filter (\<lambda>key. key \<notin> set definedPathParams) (map fst vars);
                    errors2 = (if extraParams \<noteq> []
                               then errors1 @ [''Unknown path parameters: '' @ join '', '' extraParams]
                               else errors1);
                    requiredPathParams =
                      map name (filter (\<lambda>q. required q = Some True) (paramsIn ''path'' params));
                    providedPathParams = map fst vars;
                    missingPathParams =
                      filter (\<lambda>n. n \<notin> set providedPathParams) requiredPathParams
                in Some (if missingPathParams \<noteq> []
                         then errors2 @ [''Missing required path parameters: ''
                                           @ join '', '' missingPathParams]
                         else errors2))))"

text \<open>
  \<open>Number(s)\<close> on the strings where the model knows it: the empty string is 0, an optional
  sign and at most 15 decimal digits is that integer, and a non-empty string of printable
  characters that starts with none of \<open>+ - . 0..9 I\<close> is \<open>NaN\<close> (every numeric literal,
  \<open>Infinity\<close> included, starts with one of them). \<open>None\<close> for any other string.
\<close>

definition digitsValue :: "string \<Rightarrow> int" where
  "digitsValue ds = foldl (\<lambda>n c. 10 * n + int (length (takeWhile (\<lambda>d. d \<noteq> c) ''0123456789''))) 0 ds"

definition isDigits :: "string \<Rightarrow> bool" where
  "isDigits ds = (ds \<noteq> [] \<and> length ds \<le> 15 \<and> list_all isDigit ds)"

definition js_Number :: "string \<Rightarrow> jnum option" where
  "js_Number s =
     (case s of
        [] \<Rightarrow> Some (Fin 0)
      | c # cs \<Rightarrow>
          (if isDigits s then Some (Fin (of_int (digitsValue s)))
           else if c = CHR ''+'' \<and> isDigits cs then Some (Fin (of_int (digitsValue cs)))
           else if c = CHR ''-'' \<and> isDigits cs then Some (Fin (of_int (- digitsValue cs)))
           else if list_all isPrintable s \<and> \<not> isDigit c \<and> c \<notin> set ''+-.I'' then Some NaN
           else None))"

text \<open>The conversion of a query value before validation.\<close>

definition coerceQueryValue :: "parameter \<Rightarrow> jval \<Rightarrow> jval option" where
  "coerceQueryValue param v =
     (case (v, schema param) of
        (JStr s, Some (SchemaObject (Some ty) its kws)) \<Rightarrow>
          (case ty of
             TInteger \<Rightarrow> map_option JNum (js_Number s)
           | TNumber \<Rightarrow> map_option JNum (js_Number s)
           | TBoolean \<Rightarrow> Some (JBool (toLowerCase s = ''true''))
           | TArray \<Rightarrow>
               (if style param = Some ''form'' \<and> \<not> truthy (explode param)
                then Some (JArr (map JStr (splitOn (CHR '','') s)))
                else Some v)
           | _ \<Rightarrow> Some v)
      | _ \<Rightarrow> Some v)"

fun queryParamLoop ::
  "ajv \<Rightarrow> (string \<times> jval) list \<Rightarrow> parameter list \<Rightarrow> string list \<Rightarrow> string list option" where
  "queryParamLoop ajv urlQueryParams [] errors = Some errors"
| "queryParamLoop ajv urlQueryParams (param # ps) errors =
     (let v = getProperty urlQueryParams (name param) in
      if truthy (required param) \<and> (v = None \<or> v = Some JNull \<or> v = Some (JStr [])) then
        queryParamLoop ajv urlQueryParams ps
          (errors @ [''Missing required query parameter: '' @ name param])
      else
        (case (v, schema param) of
           (Some x, Some sch) \<Rightarrow>
             (case ajv sch of
                None \<Rightarrow> None
              | Some validate \<Rightarrow>
                  (case coerceQueryValue param x of
                     None \<Rightarrow> None
                   | Some validationValue \<Rightarrow>
                       (case checkSchema ajv sch validationValue
                               (''Invalid query parameter '' @ name param @ '': '') errors of
                          None \<Rightarrow> None
                        | Some errors' \<Rightarrow> queryParamLoop ajv urlQueryParams ps errors')))
         | _ \<Rightarrow> queryParamLoop ajv urlQueryParams ps errors))"

definition validateUrlQueryParam ::
  "ajv \<Rightarrow> (string \<times> jval) list option \<Rightarrow> parameter_or_ref list option \<Rightarrow> string list
     \<Rightarrow> string list option" where
  "validateUrlQueryParam ajv urlQueryParams params errors =
     (case urlQueryParams of
        None \<Rightarrow> Some errors
      | Some q \<Rightarrow> queryParamLoop ajv q (paramsIn ''query'' params) errors)"

text \<open>
  The header object is the map of its own properties: a name that is set has a string or
  \<open>undefined\<close> (\<open>Some None\<close>), and an own property hides the inherited member of its name.
\<close>

type_synonym headerMap = "string \<rightharpoonup> string option"

text \<open>\<open>headers[k]\<close>.\<close>

definition readHeader :: "headerMap \<Rightarrow> string \<Rightarrow> jval option" where
  "readHeader hs k =
     (case hs k of
        Some (Some v) \<Rightarrow> Some (JStr v)
      | Some None \<Rightarrow> None
      | None \<Rightarrow> inherited k)"

text \<open>\<open>headers[headerName] || headers[param.name]\<close>: the first when it is truthy, else
  the second.\<close>

definition headerValue :: "headerMap \<Rightarrow> string \<Rightarrow> jval option" where
  "headerValue hs n =
     (case readHeader hs (toLowerCase n) of
        None \<Rightarrow> readHeader hs n
      | Some a \<Rightarrow> (if jsTruthy a then Some a else readHeader hs n))"

fun headerParamLoop ::
  "ajv \<Rightarrow> headerMap \<Rightarrow> parameter list \<Rightarrow> string list \<Rightarrow> string list option" where
  "headerParamLoop ajv headers [] errors = Some errors"
| "headerParamLoop ajv headers (param # ps) errors =
     (let v = headerValue headers (name param) in
      if truthy (required param) \<and> (v = None \<or> v = Some JNull \<or> v = Some (JStr [])) then
        headerParamLoop ajv headers ps
          (errors @ [''Missing required header parameter: '' @ name param])
      else
        (case (v, schema param) of
           (Some x, Some sch) \<Rightarrow>
             (case checkSchema ajv sch x
                     (''Invalid header parameter '' @ name param @ '': '') errors of
                None \<Rightarrow> None
              | Some errors' \<Rightarrow> headerParamLoop ajv headers ps errors')
         | _ \<Rightarrow> headerParamLoop ajv headers ps errors))"

definition validateUrlHeaders ::
  "ajv \<Rightarrow> headerMap option \<Rightarrow> parameter_or_ref list option \<Rightarrow> string list
     \<Rightarrow> string list option" where
  "validateUrlHeaders ajv headers params errors =
     (case headers of
        None \<Rightarrow> Some errors
      | Some h \<Rightarrow> headerParamLoop ajv h (paramsIn ''header'' params) errors)"

text \<open>The first of the three content types whose media type has a schema.\<close>

fun bodySchema :: "(string \<times> schema option) list option \<Rightarrow> string list \<Rightarrow> schema option" where
  "bodySchema cont [] = None"
| "bodySchema cont (contentType # cts) =
     (case (case cont of None \<Rightarrow> None | Some c \<Rightarrow> map_of c contentType) of
        Some (Some sch) \<Rightarrow> Some sch
      | _ \<Rightarrow> bodySchema cont cts)"

definition validateUrlRequestBody ::
  "ajv \<Rightarrow> (string \<times> jval) list option \<Rightarrow> requestBody_or_ref option \<Rightarrow> string list
     \<Rightarrow> string list option" where
  "validateUrlRequestBody ajv inputBody operationBody errors =
     (case operationBody of
        Some (RequestBodyObject rb) \<Rightarrow>
          (let isRequired = truthy (body_required rb);
               emptyBody = (case inputBody of None \<Rightarrow> True | Some b \<Rightarrow> b = [])
           in if isRequired \<and> emptyBody then Some (errors @ [''Missing required request body''])
              else
                (case inputBody of
                   None \<Rightarrow> Some errors
                 | Some b \<Rightarrow>
                     (if b = [] then Some errors
                      else
                        (case bodySchema (content rb)
                                [''application/json'', ''application/x-www-form-urlencoded'',
                                 ''multipart/form-data''] of
                           None \<Rightarrow> Some errors
                         | Some sch \<Rightarrow>
                             checkSchema ajv sch (JObj b) ''Invalid request body: '' errors))))
      | _ \<Rightarrow> Some errors)"

record requestInput =
  urlVariables :: "(string \<times> jval) list option"
  urlQueryParams :: "(string \<times> jval) list option"
  headers :: "headerMap option"
  inputRequestBody :: "(string \<times> jval) list option"

record validationResult =
  isValid :: bool
  errors :: "string list"

definition validateRequestParameters ::
  "ajv \<Rightarrow> ajv \<Rightarrow> string \<Rightarrow> document \<Rightarrow> string \<Rightarrow> requestInput \<Rightarrow> validationResult option" where
  "validateRequestParameters ajv ajvLoose u openApiDoc method input =
     (case validatePath openApiDoc u of
        None \<Rightarrow> None
      | Some r \<Rightarrow>
          (case (if pathValidateRes r then specPathItem r else None) of
             None \<Rightarrow>
               Some \<lparr>isValid = False,
                     errors = [''API path '' @ apiPath r
                                 @ '' is not valid or not found in OpenAPI specification'']\<rparr>
           | Some item \<Rightarrow>
               (case pathItemMember item (toLowerCase method) of
                  None \<Rightarrow>
                    Some \<lparr>isValid = False,
                          errors = [''Method '' @ method @ '' not found for path '' @ specPath r
                                      @ '' in OpenAPI specification'']\<rparr>
                | Some operation \<Rightarrow>
                    (case validateUrlPathParam ajv (urlVariables input) (parameters operation) [] of
                       None \<Rightarrow> None
                     | Some e1 \<Rightarrow>
                    (case validateUrlQueryParam ajv (urlQueryParams input) (parameters operation) e1 of
                       None \<Rightarrow> None
                     | Some e2 \<Rightarrow>
                    (case validateUrlHeaders ajv (headers input) (parameters operation) e2 of
                       None \<Rightarrow> None
                     | Some e3 \<Rightarrow>
                    (case validateUrlRequestBody ajvLoose (inputRequestBody input)
                            (requestBody operation) e3 of
                       None \<Rightarrow> None
                     | Some e4 \<Rightarrow> Some \<lparr>isValid = (length e4 = 0), errors = e4\<rparr>)))))))"

section \<open>The schemas an operation hands to Ajv\<close>

text \<open>The schemas of the declared parameters and of the media types of the request body:
  every schema that the validation of a request to the operation may compile.\<close>

definition parameterSchemas :: "parameter_or_ref list option \<Rightarrow> schema list" where
  "parameterSchemas ps =
     concat (map (\<lambda>p. case p of ReferenceObject r \<Rightarrow> []
                            | ParameterObject q \<Rightarrow> (case schema q of None \<Rightarrow> [] | Some sch \<Rightarrow> [sch]))
                 (case ps of None \<Rightarrow> [] | Some l \<Rightarrow> l))"

definition bodySchemas :: "requestBody_or_ref option \<Rightarrow> schema list" where
  "bodySchemas operationBody =
     (case operationBody of
        Some (RequestBodyObject rb) \<Rightarrow>
          (case content rb of
             None \<Rightarrow> []
           | Some c \<Rightarrow> concat (map (\<lambda>(k, m). case m of None \<Rightarrow> [] | Some sch \<Rightarrow> [sch]) c))
      | _ \<Rightarrow> [])"

text \<open>The supplied query values are strings on which the model knows \<open>Number\<close>, where a
  number is asked for.\<close>

definition coercible :: "(string \<times> jval) list option \<Rightarrow> parameter_or_ref list option \<Rightarrow> bool" where
  "coercible q ps =
     (case q of
        None \<Rightarrow> True
      | Some kv \<Rightarrow>
          list_all (\<lambda>p. case getProperty kv (name p) of
                           None \<Rightarrow> True
                         | Some x \<Rightarrow> coerceQueryValue p x \<noteq> None)
                   (paramsIn ''query'' ps))"

section \<open>The type keywords of Ajv\<close>

text \<open>
  A validator for the schemas made of \<open>type\<close> and \<open>items\<close> only, as Ajv 8 with
  \<open>allErrors\<close> and no type coercion checks them: a value of the wrong type is one error,
  and the items of an array value are checked whatever the declared type is; \<open>NaN\<close> is
  neither a number nor an integer. Compiling a reference throws, since nothing resolves
  it (\<open>None\<close>); a schema with another keyword is outside this model (\<open>None\<close> as
  well).
\<close>

function showNat :: "nat \<Rightarrow> string" where
  "showNat n =
     (if n < 10 then [''0123456789'' ! n]
      else showNat (n div 10) @ [''0123456789'' ! (n mod 10)])"
  by pat_completeness auto
termination
  by (relation "measure id") auto

declare showNat.simps [simp del]

fun typeName :: "schema_type \<Rightarrow> string" where
  "typeName TBoolean = ''boolean''"
| "typeName TObject = ''object''"
| "typeName TNumber = ''number''"
| "typeName TString = ''string''"
| "typeName TInteger = ''integer''"
| "typeName TArray = ''array''"

fun hasType :: "schema_type \<Rightarrow> jval \<Rightarrow> bool" where
  "hasType TBoolean v = (case v of JBool b \<Rightarrow> True | _ \<Rightarrow> False)"
| "hasType TObject v =
     (case v of JObj kv \<Rightarrow> True | JInherited k \<Rightarrow> k = ''__proto__'' | _ \<Rightarrow> False)"
| "hasType TNumber v = (case v of JNum (Fin r) \<Rightarrow> True | _ \<Rightarrow> False)"
| "hasType TString v = (case v of JStr s \<Rightarrow> True | _ \<Rightarrow> False)"
| "hasType TInteger v = (case v of JNum (Fin r) \<Rightarrow> r = of_int (floor r) | _ \<Rightarrow> False)"
| "hasType TArray v = (case v of JArr xs \<Rightarrow> True | _ \<Rightarrow> False)"

fun compiles :: "schema \<Rightarrow> bool" where
  "compiles (SchemaRef r) = False"
| "compiles (SchemaObject ty its kws) =
     (kws = [] \<and> (case its of None \<Rightarrow> True | Some i \<Rightarrow> compiles i))"

fun typeErrors :: "schema \<Rightarrow> string \<Rightarrow> jval \<Rightarrow> string list"
  and itemErrors :: "schema \<Rightarrow> string \<Rightarrow> nat \<Rightarrow> jval list \<Rightarrow> string list" where
  "typeErrors (SchemaRef r) path v = []"
| "typeErrors (SchemaObject ty its kws) path v =
     (case ty of
        None \<Rightarrow> []
      | Some t \<Rightarrow> (if hasType t v then [] else [''data'' @ path @ '' must be '' @ typeName t]))
     @ (case (its, v) of
          (Some i, JArr xs) \<Rightarrow> itemErrors i path 0 xs
        | _ \<Rightarrow> [])"
| "itemErrors i path k [] = []"
| "itemErrors i path k (x # xs) =
     typeErrors i (path @ ''/'' @ showNat k) x @ itemErrors i path (Suc k) xs"

definition ajvTypes :: ajv where
  "ajvTypes sch =
     (if compiles sch
      then Some (\<lambda>v. case typeErrors sch [] v of [] \<Rightarrow> None | es \<Rightarrow> Some (join '', '' es))
      else None)"

section \<open>Headers and the final URL (http-helper.ts)\<close>

text \<open>\<open>fillDefaultHeaderInfo\<close>, with the configured environment and token as parameters.\<close>

definition fillDefaultHeaderInfo ::
  "ApiEnvironment \<Rightarrow> string \<Rightarrow> headerMap \<Rightarrow> bool \<Rightarrow> headerMap" where
  "fillDefaultHeaderInfo USER_ENVIRONMENT USER_TOKEN hs needSetHostByEnv =
     (let h1 = hs(''Host'' \<mapsto> Some (if needSetHostByEnv then DOMAIN_NAME USER_ENVIRONMENT
                                        else DOMAIN_NAME PRODUCTION));
          h2 = h1(''User-Agent'' \<mapsto> Some ''EBAY-API-MCP-Tool/1.0'');
          h3 = h2(''Authorization'' \<mapsto> Some (''Bearer '' @ USER_TOKEN))
      in h3(''Content-Type'' \<mapsto>
              Some (case h3 ''Content-Type'' of
                      Some (Some v) \<Rightarrow> (if v \<noteq> [] then v else ''application/json'')
                    | _ \<Rightarrow> ''application/json'')))"

text \<open>The loop of \<open>buildHeadersFromInput\<close> over the entries of the input: each header
  gets the first element of its array, \<open>undefined\<close> when the array is empty.\<close>

fun copyInputHeaders ::
  "(string \<times> string list) list \<Rightarrow> headerMap \<Rightarrow> headerMap" where
  "copyInputHeaders [] hs = hs"
| "copyInputHeaders ((key, v) # es) hs =
     copyInputHeaders es (hs(key \<mapsto> (case v of [] \<Rightarrow> None | x # _ \<Rightarrow> Some x)))"

definition buildHeadersFromInput ::
  "ApiEnvironment \<Rightarrow> string \<Rightarrow> (string \<times> string list) list option \<Rightarrow> bool
     \<Rightarrow> headerMap" where
  "buildHeadersFromInput USER_ENVIRONMENT USER_TOKEN inputHeaders needSetHostByEnv =
     fillDefaultHeaderInfo USER_ENVIRONMENT USER_TOKEN
       (case inputHeaders of None \<Rightarrow> Map.empty | Some es \<Rightarrow> copyInputHeaders es Map.empty)
       needSetHostByEnv"

text \<open>\<open>String.prototype.replace\<close> with a global regular expression that is a literal,
  non-empty text: every occurrence, from the left, without overlap.\<close>

function replaceAll :: "string \<Rightarrow> string \<Rightarrow> string \<Rightarrow> string" where
  "replaceAll p r [] = []"
| "replaceAll p r (c # cs) =
     (if p \<noteq> [] \<and> startsWith (c # cs) p
      then r @ replaceAll p r (drop (length p) (c # cs))
      else c # replaceAll p r cs)"
  by pat_completeness auto
termination
  by (relation "measure (\<lambda>(p, r, s). length s)") auto

definition hexDigit :: "nat \<Rightarrow> char" where
  "hexDigit n = ''0123456789ABCDEF'' ! (n mod 16)"

text \<open>\<open>encodeURIComponent\<close> on ASCII text.\<close>

definition encodeChar :: "char \<Rightarrow> string" where
  "encodeChar c =
     (if isAlnum c \<or> c \<in> set ''-_.!~*()'' \<or> c = CHR 0x27 then [c]
      else [CHR ''%'', hexDigit (of_char c div 16), hexDigit (of_char c)])"

definition encodeURIComponent :: "string \<Rightarrow> string" where
  "encodeURIComponent s = concat (map encodeChar s)"

text \<open>\<open>String(value)\<close> on null, booleans, integers of at most 15 digits and ASCII
  strings; \<open>None\<close> for the other values.\<close>

definition js_String :: "jval \<Rightarrow> string option" where
  "js_String v =
     (case v of
        JNull \<Rightarrow> Some ''null''
      | JBool b \<Rightarrow> Some (if b then ''true'' else ''false'')
      | JStr s \<Rightarrow> (if list_all (\<lambda>c. (of_char c :: nat) < 128) s then Some s else None)
      | JNum (Fin r) \<Rightarrow>
          (if r = of_int (floor r) \<and> \<bar>floor r\<bar> < 10 ^ 15
           then Some ((if r < 0 then ''-'' else []) @ showNat (nat \<bar>floor r\<bar>))
           else None)
      | _ \<Rightarrow> None)"

text \<open>A key that is literal text as a regular expression source.\<close>

definition plainKey :: "string \<Rightarrow> bool" where
  "plainKey k = list_all (\<lambda>c. isAlnum c \<or> c = CHR ''_'' \<or> c = CHR ''-'') k"

text \<open>\<open>buildFinalUrl\<close>; \<open>None\<close> when a key or a value is outside the modelled fragments.\<close>

fun replaceVariables :: "(string \<times> jval) list \<Rightarrow> string \<Rightarrow> string option" where
  "replaceVariables [] u = Some u"
| "replaceVariables ((key, v) # es) u =
     (case (if plainKey key then js_String v else None) of
        None \<Rightarrow> None
      | Some text \<Rightarrow>
          replaceVariables es (replaceAll (''%7B'' @ key @ ''%7D'') (encodeURIComponent text) u))"

definition buildFinalUrl :: "string \<Rightarrow> (string \<times> jval) list option \<Rightarrow> string option" where
  "buildFinalUrl u vars =
     (case vars of None \<Rightarrow> Some u | Some es \<Rightarrow> replaceVariables es u)"

section \<open>Loading a specification on demand (openapi-helper.ts)\<close>

datatype exn = Error string | AxiosError string "jval option"

datatype 'a attempt = Threw exn | Returned 'a

text \<open>\<open>util.format\<close> on a format string whose directives are \<open>%s\<close>, with string
  arguments: each directive takes the next argument, and arguments left over are appended
  after a space.\<close>

fun utilFormat :: "string \<Rightarrow> string list \<Rightarrow> string" where
  "utilFormat (a # b # cs) (x # xs) =
     (if a = CHR ''%'' \<and> b = CHR ''s'' then x @ utilFormat cs xs
      else a # utilFormat (b # cs) (x # xs))"
| "utilFormat cs [] = cs"
| "utilFormat cs (x # xs) = cs @ concat (map (\<lambda>y. '' '' @ y) (x # xs))"

definition RECALL_SPEC_WITH_FIELD_URL :: string where
  "RECALL_SPEC_WITH_FIELD_URL =
     ''https://ebaypubapimcp3.vip.qa.ebay.com/developer-portal/api/v1/openapi-specs/%s?operationId=%s''"

definition emptyDocument :: document where
  "emptyDocument = \<lparr>servers = None, paths = None\<rparr>"

text \<open>
  \<open>parseOpenApiDoc\<close>. The HTTP client (\<open>axios.get\<close>) and the two parsers (\<open>JSON.parse\<close>,
  \<open>yaml.load\<close>) are parameters; each returns or throws. A parsed value is read as a
  document (a value that is \<open>null\<close> or \<open>undefined\<close> is outside the model).
\<close>

definition parseOpenApiDoc ::
  "(string \<Rightarrow> string attempt) \<Rightarrow> (string \<Rightarrow> document attempt) \<Rightarrow> (string \<Rightarrow> document attempt)
     \<Rightarrow> string \<Rightarrow> string \<Rightarrow> string \<Rightarrow> document attempt" where
  "parseOpenApiDoc axiosGet jsonParse yamlLoad specTitle operationId specUrl =
     (case axiosGet (utilFormat specUrl [specTitle, operationId]) of
        Threw e \<Rightarrow> Threw e
      | Returned docString \<Rightarrow>
          (case jsonParse docString of
             Returned d \<Rightarrow> Returned d
           | Threw jsonError \<Rightarrow>
               (case yamlLoad docString of
                  Returned d \<Rightarrow> Returned d
                | Threw yamlError \<Rightarrow> Returned emptyDocument)))"

section \<open>The generic invoke operation (openapi-service.ts)\<close>

record invokeArgs =
  arg_url :: string
  arg_method :: string
  arg_headers :: "(string \<times> string list) list option"
  arg_urlVariables :: "(string \<times> jval) list option"
  arg_urlQueryParams :: "(string \<times> string) list option"
  arg_requestBody :: "(string \<times> jval) list option"
  arg_specTitle :: string
  arg_operationId :: string

record request =
  req_url :: string
  req_method :: string
  req_headers :: headerMap
  req_params :: "(string \<times> string) list option"
  req_data :: "(string \<times> jval) list option"

text \<open>What the handler sends: the lookup of the specification (\<open>axios.get\<close>) and the
  request to the API (\<open>axios.request\<close>).\<close>

datatype event = Lookup string | ApiRequest request

record toolResult =
  result_content :: "string list"
  isError :: bool

text \<open>\<open>formatAxiosError\<close>; \<open>stringify d\<close> is \<open>JSON.stringify(d, null, 2)\<close>.\<close>

definition formatAxiosError :: "(jval \<Rightarrow> string) \<Rightarrow> exn \<Rightarrow> string" where
  "formatAxiosError stringify e =
     (case e of
        Error msg \<Rightarrow> ''Error in invokeAPI tool: '' @ msg
      | AxiosError msg resp \<Rightarrow>
          (case resp of
             None \<Rightarrow> ''Error in invokeAPI tool: '' @ msg
           | Some d \<Rightarrow> (if jsTruthy d then stringify d else ''Error in invokeAPI tool: '' @ msg)))"

definition errorResult :: "(jval \<Rightarrow> string) \<Rightarrow> exn \<Rightarrow> toolResult" where
  "errorResult stringify e =
     \<lparr>result_content = [''Error in invokeOpenAPI tool: '' @ formatAxiosError stringify e],
      isError = True\<rparr>"

text \<open>
  The handler of the tool \<open>invokeAPI\<close>, with what it sent. The HTTP client, the parsers and
  \<open>JSON.stringify\<close> are parameters. \<open>None\<close> when a step is outside the modelled fragments.
\<close>

definition invokeApiTool ::
  "ApiEnvironment \<Rightarrow> string \<Rightarrow> ajv \<Rightarrow> ajv \<Rightarrow> (string \<Rightarrow> string attempt)
     \<Rightarrow> (string \<Rightarrow> document attempt) \<Rightarrow> (string \<Rightarrow> document attempt)
     \<Rightarrow> (request \<Rightarrow> jval attempt) \<Rightarrow> (jval \<Rightarrow> string) \<Rightarrow> invokeArgs
     \<Rightarrow> (toolResult \<times> event list) option" where
  "invokeApiTool USER_ENVIRONMENT USER_TOKEN ajv ajvLoose axiosGet jsonParse yamlLoad axiosRequest stringify input =
     (let hs = buildHeadersFromInput USER_ENVIRONMENT USER_TOKEN (arg_headers input) False;
          lookup = Lookup (utilFormat RECALL_SPEC_WITH_FIELD_URL
                             [arg_specTitle input, arg_operationId input])
      in case parseOpenApiDoc axiosGet jsonParse yamlLoad (arg_specTitle input)
                (arg_operationId input) RECALL_SPEC_WITH_FIELD_URL of
           Threw e \<Rightarrow> Some (errorResult stringify e, [lookup])
         | Returned openApiDoc \<Rightarrow>
        (case replaceDomainNameByEnvironment USER_ENVIRONMENT (arg_url input) of
           None \<Rightarrow> None
         | Some replacedDomainUrl \<Rightarrow>
        (case validateRequestParameters ajv ajvLoose replacedDomainUrl openApiDoc (arg_method input)
                \<lparr>urlVariables = arg_urlVariables input,
                 urlQueryParams = map_option (map (\<lambda>(k, v). (k, JStr v))) (arg_urlQueryParams input),
                 headers = Some hs,
                 inputRequestBody = arg_requestBody input\<rparr> of
           None \<Rightarrow> None
         | Some reqParamValidation \<Rightarrow>
             (if \<not> isValid reqParamValidation then
                Some (\<lparr>result_content = [''Request validation failed:'',
                                          join [CHR 0x0A] (errors reqParamValidation)],
                       isError = True\<rparr>, [lookup])
              else
                (case buildFinalUrl replacedDomainUrl (arg_urlVariables input) of
                   None \<Rightarrow> None
                 | Some finalUrl \<Rightarrow>
                     (let req = \<lparr>req_url = finalUrl, req_method = arg_method input,
                                 req_headers = hs, req_params = arg_urlQueryParams input,
                                 req_data = arg_requestBody input\<rparr>
                      in case axiosRequest req of
                           Threw e \<Rightarrow> Some (errorResult stringify e, [lookup, ApiRequest req])
                         | Returned d \<Rightarrow>
                             Some (\<lparr>result_content =
                                      [if jsTruthy d
                                       then (case d of JStr t \<Rightarrow> t | _ \<Rightarrow> stringify d)
                                       else ''No response body''],
                                    isError = False\<rparr>, [lookup, ApiRequest req])))))))"

section \<open>Templates and their instances\<close>









section \<open>Parsed URLs\<close>

text \<open>The pathname of a parsed URL.\<close>

definition pathnameOk :: "string \<Rightarrow> bool" where
  "pathnameOk pn = (pn \<noteq> [] \<and> hd pn = CHR ''/'' \<and> plainPathChars pn
      \<and> list_all isPrintable pn \<and> CHR ''?'' \<notin> set pn \<and> encodePath pn = pn)"

text \<open>The two halves of \<open>hasScheme\<close>.\<close>

definition alphaFirst :: "string \<Rightarrow> bool" where
  "alphaFirst s = (case s of [] \<Rightarrow> False | c # _ \<Rightarrow> isLower c \<or> isUpper c)"

definition colonNext :: "string \<Rightarrow> bool" where
  "colonNext s = (case dropWhile isSchemeChar s of [] \<Rightarrow> False | d # _ \<Rightarrow> d = CHR '':'')"

section \<open>Example data\<close>

definition stringParam :: "string \<Rightarrow> string \<Rightarrow> parameter" where
  "stringParam n loc =
     \<lparr>name = n, location = loc, required = Some True,
      schema = Some (SchemaObject (Some TString) None []), style = None, explode = None\<rparr>"

definition getItem :: operation where
  "getItem =
     \<lparr>parameters = Some [ParameterObject (stringParam ''item_id'' ''path''),
                         ParameterObject (stringParam ''fieldgroups'' ''query''),
                         ParameterObject (stringParam ''X-EBAY-C-MARKETPLACE-ID'' ''header'')],
      requestBody = Some (RequestBodyObject \<lparr>body_required = Some True, content = None\<rparr>)\<rparr>"

definition browseDoc :: document where
  "browseDoc = \<lparr>servers = None, paths = Some [(''/item/{item_id}'', Some [(''get'', getItem)])]\<rparr>"

definition itemUrl :: string where
  "itemUrl = ''https://api.ebay.com/buy/browse/v1/item/{item_id}''"

definition orderParam :: parameter where
  "orderParam =
     \<lparr>name = ''order_id'', location = ''path'', required = Some True,
      schema = Some (SchemaObject (Some TInteger) None []), style = None, explode = None\<rparr>"

definition invokeGetItem :: "(string \<times> jval) list option \<Rightarrow> invokeArgs" where
  "invokeGetItem vars =
     \<lparr>arg_url = itemUrl, arg_method = ''GET'',
      arg_headers = Some [(''X-EBAY-C-MARKETPLACE-ID'', [''EBAY_US''])],
      arg_urlVariables = vars, arg_urlQueryParams = Some [(''fieldgroups'', ''PRODUCT'')],
      arg_requestBody = Some [(''note'', JStr ''x'')],
      arg_specTitle = ''Browse API'', arg_operationId = ''getItem''\<rparr>"

definition queryParam :: "string \<Rightarrow> schema \<Rightarrow> parameter" where
  "queryParam n sch =
     \<lparr>name = n, location = ''query'', required = None, schema = Some sch,
      style = Some ''form'', explode = Some False\<rparr>"

definition soldParam :: parameter where
  "soldParam = queryParam ''sold'' (SchemaObject (Some TBoolean) None [])"

definition idsParam :: parameter where
  "idsParam =
     queryParam ''ids'' (SchemaObject (Some TArray) (Some (SchemaObject (Some TInteger) None [])) [])"

definition limitParam :: parameter where
  "limitParam = queryParam ''limit'' (SchemaObject (Some TInteger) None [])"



definition filterParam :: parameter where
  "filterParam =
     \<lparr>name = ''filter'', location = ''query'', required = None,
      schema = Some (SchemaRef ''#/components/schemas/Filter''), style = None, explode = None\<rparr>"

definition searchItems :: operation where
  "searchItems =
     \<lparr>parameters = Some [ParameterObject (stringParam ''item_id'' ''path''),
                         ParameterObject filterParam,
                         ParameterObject (stringParam ''fieldgroups'' ''query'')],
      requestBody = None\<rparr>"

definition searchDoc :: document where
  "searchDoc = \<lparr>servers = None, paths = Some [(''/item/{item_id}'', Some [(''get'', searchItems)])]\<rparr>"

definition emptyInput :: requestInput where
  "emptyInput =
     \<lparr>urlVariables = Some [], urlQueryParams = Some [], headers = Some Map.empty,
      inputRequestBody = None\<rparr>"

section \<open>Properties\<close>

subsection \<open>The error list only grows\<close>

text \<open>Each validation function appends to the list it is given: its result on a list is
  that list followed by its result on the empty list.\<close>

lemma checkSchema_app:
  "checkSchema ajv sch v msg (es @ es') = map_option (\<lambda>e. es @ e) (checkSchema ajv sch v msg es')"
  by (simp add: checkSchema_def split: option.splits)

lemma pathParamLoop_app:
  "pathParamLoop ajv vars ps (es @ es') = map_option (\<lambda>e. es @ e) (pathParamLoop ajv vars ps es')"
proof (induction ps arbitrary: es')
  case Nil
  then show ?case by simp
next
  case (Cons p ps)
  have IH: "\<And>x. pathParamLoop ajv vars ps (es @ x) = map_option (\<lambda>e. es @ e) (pathParamLoop ajv vars ps x)"
    by (rule Cons.IH)
  show ?case
    by (auto simp add: Let_def checkSchema_app IH split: option.splits)
qed

lemma queryParamLoop_app:
  "queryParamLoop ajv q ps (es @ es') = map_option (\<lambda>e. es @ e) (queryParamLoop ajv q ps es')"
proof (induction ps arbitrary: es')
  case Nil
  then show ?case by simp
next
  case (Cons p ps)
  have IH: "\<And>x. queryParamLoop ajv q ps (es @ x) = map_option (\<lambda>e. es @ e) (queryParamLoop ajv q ps x)"
    by (rule Cons.IH)
  show ?case
    by (auto simp add: Let_def checkSchema_app IH split: option.splits)
qed

lemma headerParamLoop_app:
  "headerParamLoop ajv h ps (es @ es') = map_option (\<lambda>e. es @ e) (headerParamLoop ajv h ps es')"
proof (induction ps arbitrary: es')
  case Nil
  then show ?case by simp
next
  case (Cons p ps)
  have IH: "\<And>x. headerParamLoop ajv h ps (es @ x) = map_option (\<lambda>e. es @ e) (headerParamLoop ajv h ps x)"
    by (rule Cons.IH)
  show ?case
    by (auto simp add: Let_def checkSchema_app IH split: option.splits)
qed

lemma validateUrlPathParam_app:
  "validateUrlPathParam ajv vs ps (es @ es') = map_option (\<lambda>e. es @ e) (validateUrlPathParam ajv vs ps es')"
  by (auto simp add: validateUrlPathParam_def Let_def pathParamLoop_app split: option.splits)

lemma validateUrlQueryParam_app:
  "validateUrlQueryParam ajv q ps (es @ es') = map_option (\<lambda>e. es @ e) (validateUrlQueryParam ajv q ps es')"
  by (auto simp add: validateUrlQueryParam_def queryParamLoop_app split: option.splits)

lemma validateUrlHeaders_app:
  "validateUrlHeaders ajv h ps (es @ es') = map_option (\<lambda>e. es @ e) (validateUrlHeaders ajv h ps es')"
  by (auto simp add: validateUrlHeaders_def headerParamLoop_app split: option.splits)

lemma validateUrlRequestBody_app:
  "validateUrlRequestBody ajv b ob (es @ es') = map_option (\<lambda>e. es @ e) (validateUrlRequestBody ajv b ob es')"
  by (auto simp add: validateUrlRequestBody_def Let_def checkSchema_app
      split: option.splits requestBody_or_ref.splits)

lemmas app_nil =
  validateUrlPathParam_app [where es' = "[]", simplified]
  validateUrlQueryParam_app [where es' = "[]", simplified]
  validateUrlHeaders_app [where es' = "[]", simplified]
  validateUrlRequestBody_app [where es' = "[]", simplified]

subsection \<open>An instance of a template matches its regular expression\<close>











subsection \<open>Path resolution is a search for the first match\<close>



subsection \<open>A rewritten URL parses again\<close>

lemma isAlnum_printable: "isAlnum c \<Longrightarrow> isPrintable c"
  unfolding isAlnum_def isLower_def isUpper_def isDigit_def
  by (auto simp: isPrintable_def)

lemma isHostChar_printable: "isHostChar c \<Longrightarrow> isPrintable c"
  unfolding isHostChar_def isLower_def isDigit_def
  by (auto simp: isPrintable_def)

lemma isPathChar_printable: "isPathChar c \<Longrightarrow> isPrintable c"
  unfolding isPathChar_def using isAlnum_printable [of c]
  by (auto simp: isPrintable_def)

lemma isQueryChar_printable: "isQueryChar c \<Longrightarrow> isPrintable c"
  unfolding isQueryChar_def using isAlnum_printable [of c]
  by (auto simp: isPrintable_def)

lemma isPathChar_not_host: "isPathChar c \<Longrightarrow> c \<noteq> CHR ''?''"
  unfolding isPathChar_def isAlnum_def isLower_def isUpper_def isDigit_def
  by auto


lemma encodePath_starts:
  "startsWith cs ''7B'' \<Longrightarrow> startsWith (encodePath cs) ''7B''"
  "startsWith cs ''7D'' \<Longrightarrow> startsWith (encodePath cs) ''7D''"
  by (cases cs; cases "tl cs"; auto simp: startsWith_def)+

lemma encodePath_plain:
  "plainPathChars p \<Longrightarrow> plainPathChars (encodePath p)"
proof (induction p)
  case Nil
  then show ?case by simp
next
  case (Cons c p)
  then have rest: "plainPathChars (encodePath p)" by simp
  show ?case
  proof (cases "c = CHR ''%''")
    case True
    with Cons.prems rest show ?thesis
      using encodePath_starts [of p] by auto
  next
    case False
    with Cons.prems rest show ?thesis
      by (auto simp: startsWith_def isPathChar_def isAlnum_def isUpper_def isDigit_def)
  qed
qed

lemma encodePath_printable:
  "plainPathChars p \<Longrightarrow> list_all isPrintable (encodePath p)"
proof (induction p)
  case Nil
  then show ?case by simp
next
  case (Cons c p)
  then have rest: "list_all isPrintable (encodePath p)" by simp
  from Cons.prems have "c = CHR ''%'' \<or> isPathChar c" by (auto split: if_splits)
  moreover have esc: "isPrintable CHR ''%''" "isPrintable CHR ''7''" "isPrintable CHR ''B''"
    "isPrintable CHR ''D''"
    by (simp_all add: isPrintable_def)
  ultimately have "isPrintable c"
    using isPathChar_printable [of c] by auto
  with rest esc show ?case by auto
qed

lemma encodePath_no_query:
  "plainPathChars p \<Longrightarrow> CHR ''?'' \<notin> set (encodePath p)"
proof (induction p)
  case Nil
  then show ?case by simp
next
  case (Cons c p)
  then have rest: "CHR ''?'' \<notin> set (encodePath p)" by simp
  from Cons.prems have "c = CHR ''%'' \<or> isPathChar c" by (auto split: if_splits)
  then have "c \<noteq> CHR ''?''"
    using isPathChar_not_host [of c] by auto
  with rest show ?case by auto
qed

lemma encodePath_idem: "encodePath (encodePath p) = encodePath p"
  by (induction p) auto

lemma encodePath_head:
  "p \<noteq> [] \<Longrightarrow> hd p = CHR ''/'' \<Longrightarrow> encodePath p \<noteq> [] \<and> hd (encodePath p) = CHR ''/''"
  by (cases p) auto

lemma newURL_parts:
  assumes "newURL u = UrlOk obj"
  shows "(protocol obj = ''https:'' \<or> protocol obj = ''http:'') \<and> plainHost (hostname obj)
         \<and> pathnameOk (pathname obj) \<and> plainQuery (rawQuery obj)"
proof -
  from assms obtain proto rest where
    strip: "stripHttpScheme u = Some (proto, rest)"
    by (auto simp: newURL_def split: if_splits option.splits)
  define path where "path = takeWhile (\<lambda>c. c \<noteq> CHR ''?'') (dropWhile isHostChar rest)"
  from assms strip have ok: "plainHost (takeWhile isHostChar rest)" "plainPath path"
    "plainQuery (dropWhile (\<lambda>c. c \<noteq> CHR ''?'') (dropWhile isHostChar rest))"
    and obj: "obj = \<lparr>protocol = proto, hostname = takeWhile isHostChar rest,
                     pathname = (if path = [] then ''/'' else encodePath path),
                     rawQuery = dropWhile (\<lambda>c. c \<noteq> CHR ''?'') (dropWhile isHostChar rest)\<rparr>"
    unfolding path_def
    by (auto simp: newURL_def Let_def split: if_splits)
  from strip have proto: "proto = ''https:'' \<or> proto = ''http:''"
    by (auto simp: stripHttpScheme_def split: if_splits)
  have "pathnameOk (if path = [] then ''/'' else encodePath path)"
  proof (cases "path = []")
    case True
    then show ?thesis by (simp add: pathnameOk_def isPathChar_def isPrintable_def)
  next
    case False
    with ok(2) have "hd path = CHR ''/''" "plainPathChars path"
      by (auto simp: plainPath_def)
    with False show ?thesis
      using encodePath_head [of path] encodePath_plain [of path] encodePath_printable [of path]
        encodePath_no_query [of path] encodePath_idem [of path]
      by (simp add: pathnameOk_def)
  qed
  with ok obj proto show ?thesis by auto
qed

lemma plainQuery_printable: "plainQuery q \<Longrightarrow> list_all isPrintable q"
proof (cases q)
  case Nil
  then show ?thesis by simp
next
  case (Cons c cs)
  assume "plainQuery q"
  with Cons have c: "c = CHR ''?''" and cs: "list_all isQueryChar cs"
    by (simp_all add: plainQuery_def)
  have "isPrintable CHR ''?''" by (simp add: isPrintable_def)
  moreover from cs have "list_all isPrintable cs"
    by (induction cs) (auto dest: isQueryChar_printable)
  ultimately show ?thesis using Cons c by simp
qed

lemma plainQuery_split:
  assumes "plainQuery q" and "CHR ''?'' \<notin> set pn"
  shows "takeWhile (\<lambda>c. c \<noteq> CHR ''?'') (pn @ q) = pn"
    and "dropWhile (\<lambda>c. c \<noteq> CHR ''?'') (pn @ q) = q"
proof -
  have q: "takeWhile (\<lambda>c. c \<noteq> CHR ''?'') q = []" "dropWhile (\<lambda>c. c \<noteq> CHR ''?'') q = q"
    using assms(1) by (cases q; simp add: plainQuery_def)+
  have pn: "\<And>x. x \<in> set pn \<Longrightarrow> x \<noteq> CHR ''?''"
    using assms(2) by auto
  show "takeWhile (\<lambda>c. c \<noteq> CHR ''?'') (pn @ q) = pn"
    using pn q(1) by (simp add: takeWhile_append2)
  show "dropWhile (\<lambda>c. c \<noteq> CHR ''?'') (pn @ q) = q"
    using pn q(2) by (simp add: dropWhile_append2)
qed

lemma domain_host:
  "list_all isHostChar (DOMAIN_NAME env)"
  "list_all isPrintable (DOMAIN_NAME env)"
  by (cases env; simp add: isHostChar_def isLower_def isDigit_def isPrintable_def)+

lemma domain_plainHost: "plainHost (DOMAIN_NAME env)"
  by (cases env) (simp_all add: plainHost_def plainLabel_def isLower_def isDigit_def)

lemma host_split:
  assumes "pn \<noteq> []" and "hd pn = CHR ''/''"
  shows "takeWhile isHostChar (DOMAIN_NAME env @ pn @ q) = DOMAIN_NAME env"
    and "dropWhile isHostChar (DOMAIN_NAME env @ pn @ q) = pn @ q"
proof -
  from assms obtain pn' where pn: "pn = CHR ''/'' # pn'" by (cases pn) auto
  have slash: "\<not> isHostChar CHR ''/''"
    by (simp add: isHostChar_def isLower_def isDigit_def)
  have dom: "\<And>x. x \<in> set (DOMAIN_NAME env) \<Longrightarrow> isHostChar x"
    using domain_host(1) [of env] by (simp add: list_all_iff)
  show "takeWhile isHostChar (DOMAIN_NAME env @ pn @ q) = DOMAIN_NAME env"
    using dom slash pn by (simp add: takeWhile_append2)
  show "dropWhile isHostChar (DOMAIN_NAME env @ pn @ q) = pn @ q"
    using dom slash pn by (simp add: dropWhile_append2)
qed

lemma newURL_rebuilt:
  assumes proto: "proto = ''https:'' \<or> proto = ''http:''"
    and pn: "pathnameOk pn" and q: "plainQuery q"
  shows "newURL (proto @ ''//'' @ DOMAIN_NAME env @ pn @ q)
         = UrlOk \<lparr>protocol = proto, hostname = DOMAIN_NAME env, pathname = pn, rawQuery = q\<rparr>"
proof -
  let ?rest = "DOMAIN_NAME env @ pn @ q"
  have printable: "list_all isPrintable (proto @ ''//'' @ ?rest)"
  proof -
    have "list_all isPrintable proto" "list_all isPrintable ''//''"
      using proto by (auto simp: isPrintable_def)
    with domain_host(2) [of env] pn plainQuery_printable [OF q] show ?thesis
      by (simp add: pathnameOk_def)
  qed
  have scheme: "hasScheme (proto @ ''//'' @ ?rest)"
    using proto
    by (auto simp: hasScheme_def isSchemeChar_def isAlnum_def isLower_def isUpper_def isDigit_def)
  have strip: "stripHttpScheme (proto @ ''//'' @ ?rest) = Some (proto, ?rest)"
    using proto by (auto simp: stripHttpScheme_def startsWith_def)
  from pn have pn': "pn \<noteq> []" "hd pn = CHR ''/''" "plainPathChars pn"
    "CHR ''?'' \<notin> set pn" "encodePath pn = pn"
    by (simp_all add: pathnameOk_def)
  have path: "plainPath pn"
    using pn' by (simp add: plainPath_def)
  show ?thesis
    using printable scheme strip host_split [OF pn'(1,2), of env q]
      plainQuery_split [OF q pn'(4)] domain_plainHost [of env] path q pn'(1,5)
    by (simp add: newURL_def Let_def)
qed

lemma replaceDomain_parsed_idem:
  assumes "newURL u = UrlOk obj" and "replaceDomainNameByEnvironment env u = Some v"
  shows "replaceDomainNameByEnvironment env v = Some v"
proof (cases "hostname obj = DOMAIN_NAME env")
  case True
  with assms show ?thesis
    by (auto simp: replaceDomainNameByEnvironment_def Let_def)
next
  case False
  with assms have v: "v = toString (obj\<lparr>hostname := DOMAIN_NAME env\<rparr>)"
    by (auto simp: replaceDomainNameByEnvironment_def Let_def)
  from newURL_parts [OF assms(1)]
  have "newURL (protocol obj @ ''//'' @ DOMAIN_NAME env @ pathname obj @ rawQuery obj)
         = UrlOk \<lparr>protocol = protocol obj, hostname = DOMAIN_NAME env, pathname = pathname obj,
                  rawQuery = rawQuery obj\<rparr>"
    by (intro newURL_rebuilt) auto
  with v show ?thesis
    by (simp add: replaceDomainNameByEnvironment_def Let_def toString_def)
qed

subsection \<open>The fallback keeps a string unparsable\<close>

lemma replaceFirst_split:
  assumes "d \<noteq> []" and "includes_str u d"
  shows "\<exists>pre post. u = pre @ d @ post \<and> replaceFirst d e u = pre @ e @ post"
  using assms
proof (induction u)
  case Nil
  then show ?case by simp
next
  case (Cons c cs)
  show ?case
  proof (cases "startsWith (c # cs) d")
    case True
    then have "c # cs = [] @ d @ drop (length d) (c # cs)"
      by (metis append_Nil append_take_drop_id startsWith_def)
    moreover from True have "replaceFirst d e (c # cs) = [] @ e @ drop (length d) (c # cs)"
      by simp
    ultimately show ?thesis by blast
  next
    case False
    with Cons.prems have "includes_str cs d" by simp
    from Cons.IH [OF Cons.prems(1) this] obtain pre post where
      "cs = pre @ d @ post" "replaceFirst d e cs = pre @ e @ post" by blast
    with False have "c # cs = (c # pre) @ d @ post"
      "replaceFirst d e (c # cs) = (c # pre) @ e @ post"
      by simp_all
    then show ?thesis by blast
  qed
qed

lemma replaceFirst_absent:
  "\<not> includes_str u d \<Longrightarrow> replaceFirst d e u = u"
  by (induction u) (auto simp: startsWith_def)

lemma hasScheme_alt: "hasScheme s = (alphaFirst s \<and> colonNext s)"
  by (cases s) (auto simp: hasScheme_def alphaFirst_def colonNext_def isSchemeChar_def isAlnum_def)

lemma colonNext_swap:
  assumes "list_all isSchemeChar d" and "list_all isSchemeChar e"
  shows "colonNext (pre @ d @ post) = colonNext (pre @ e @ post)"
proof (cases "list_all isSchemeChar pre")
  case True
  then have "dropWhile isSchemeChar (pre @ d @ post) = dropWhile isSchemeChar post"
    "dropWhile isSchemeChar (pre @ e @ post) = dropWhile isSchemeChar post"
    using assms by (simp_all add: dropWhile_append2 list_all_iff)
  then show ?thesis by (simp add: colonNext_def)
next
  case False
  then obtain x where x: "x \<in> set pre" "\<not> isSchemeChar x"
    by (auto simp: list_all_iff)
  then have "dropWhile isSchemeChar (pre @ d @ post) = dropWhile isSchemeChar pre @ d @ post"
    "dropWhile isSchemeChar (pre @ e @ post) = dropWhile isSchemeChar pre @ e @ post"
    by (simp_all add: dropWhile_append1)
  moreover from x have "dropWhile isSchemeChar pre \<noteq> []"
    by (simp add: dropWhile_eq_Nil_conv) blast
  ultimately show ?thesis
    by (cases "dropWhile isSchemeChar pre") (simp_all add: colonNext_def)
qed

lemma alphaFirst_swap:
  assumes "alphaFirst d" and "alphaFirst e"
  shows "alphaFirst (pre @ d @ post) = alphaFirst (pre @ e @ post)"
  using assms by (cases pre; cases d; cases e) (simp_all add: alphaFirst_def)

lemma domain_scheme:
  "list_all isSchemeChar (DOMAIN_NAME env)" "alphaFirst (DOMAIN_NAME env)" "DOMAIN_NAME env \<noteq> []"
  by (cases env; simp add: isSchemeChar_def isAlnum_def isLower_def alphaFirst_def)+

lemma replaceFirst_domain_throws:
  assumes "newURL u = UrlThrows"
  shows "newURL (replaceFirst (DOMAIN_NAME other) (DOMAIN_NAME env) u) = UrlThrows"
proof (cases "includes_str u (DOMAIN_NAME other)")
  case False
  with assms show ?thesis by (simp add: replaceFirst_absent)
next
  case True
  from replaceFirst_split [OF domain_scheme(3) True, of "DOMAIN_NAME env"]
  obtain pre post where u: "u = pre @ DOMAIN_NAME other @ post"
    and v: "replaceFirst (DOMAIN_NAME other) (DOMAIN_NAME env) u = pre @ DOMAIN_NAME env @ post"
    by blast
  from assms have pr: "list_all isPrintable u" and ns: "\<not> hasScheme u"
    by (auto simp: newURL_def Let_def split: if_splits option.splits)
  from pr u have "list_all isPrintable (pre @ DOMAIN_NAME env @ post)"
    using domain_host(2) [of env] by simp
  moreover have "colonNext (pre @ DOMAIN_NAME other @ post) = colonNext (pre @ DOMAIN_NAME env @ post)"
    by (rule colonNext_swap) (rule domain_scheme(1))+
  moreover have "alphaFirst (pre @ DOMAIN_NAME other @ post) = alphaFirst (pre @ DOMAIN_NAME env @ post)"
    by (rule alphaFirst_swap) (rule domain_scheme(2))+
  ultimately have "list_all isPrintable (pre @ DOMAIN_NAME env @ post)"
    and "\<not> hasScheme (pre @ DOMAIN_NAME env @ post)"
    using ns u by (simp_all add: hasScheme_alt)
  then show ?thesis
    using v by (simp add: newURL_def)
qed

lemma fallback_throws:
  assumes "newURL u = UrlThrows"
  shows "newURL (replaceDomainFallback env DOMAIN_NAME_entries u) = UrlThrows"
  using assms replaceFirst_domain_throws [OF assms, of SANDBOX env]
    replaceFirst_domain_throws [OF assms, of PRODUCTION env]
  by (cases env) (simp_all add: DOMAIN_NAME_entries_def)

lemma fallback_fixed:
  assumes "\<forall>e. e \<noteq> env \<longrightarrow> \<not> includes_str v (DOMAIN_NAME e)"
  shows "replaceDomainFallback env DOMAIN_NAME_entries v = v"
  using assms by (auto simp: DOMAIN_NAME_entries_def)

subsection \<open>Reading a property\<close>

lemma getProperty_own: "map_of obj k = Some v \<Longrightarrow> getProperty obj k = Some v"
  by (simp add: getProperty_def)

lemma getProperty_absent:
  assumes "k \<notin> fst ` set obj" and "k \<notin> set objectPrototypeNames"
  shows "getProperty obj k = None"
proof -
  from assms(1) have "map_of obj k = None"
    by (simp add: map_of_eq_None_iff)
  with assms(2) show ?thesis
    by (simp add: getProperty_def inherited_def)
qed

subsection \<open>Required path parameters\<close>

lemma paramsIn_mem:
  "ParameterObject p \<in> set ps \<Longrightarrow> location p = loc \<Longrightarrow> p \<in> set (paramsIn loc (Some ps))"
  by (force simp: paramsIn_def)

lemma pathParamLoop_keeps:
  assumes "pathParamLoop ajv vars ps es = Some e"
  shows "set es \<subseteq> set e"
proof -
  from assms pathParamLoop_app [of ajv vars ps es "[]"]
  obtain e' where "e = es @ e'"
    by (cases "pathParamLoop ajv vars ps []") auto
  then show ?thesis by simp
qed

lemma pathParamLoop_missing:
  assumes "pathParamLoop ajv vars ps es = Some e"
    and "p \<in> set ps" and "required p = Some True" and "getProperty vars (name p) = None"
  shows "(''Missing required path parameter: '' @ name p) \<in> set e"
  using assms
proof (induction ps arbitrary: es)
  case Nil
  then show ?case by simp
next
  case (Cons q ps)
  show ?case
  proof (cases "q = p")
    case True
    with Cons.prems have "pathParamLoop ajv vars ps
        (es @ [''Missing required path parameter: '' @ name p]) = Some e"
      by (simp add: truthy_def)
    from pathParamLoop_keeps [OF this] show ?thesis by simp
  next
    case False
    with Cons.prems have mem: "p \<in> set ps" by simp
    from Cons.prems(1) obtain es' where "pathParamLoop ajv vars ps es' = Some e"
      by (auto simp: Let_def split: if_splits option.splits)
    from Cons.IH [OF this mem Cons.prems(3) Cons.prems(4)] show ?thesis .
  qed
qed

text \<open>The result of \<open>validateUrlPathParam\<close> is the result of its loop, followed by the
  message on unknown names if there are any, followed by the message on the required names
  that are not keys of the map if there are any.\<close>

lemma validateUrlPathParam_parts:
  assumes "validateUrlPathParam ajv (Some vars) ps es = Some e"
  shows "\<exists>e1. pathParamLoop ajv vars (paramsIn ''path'' ps) es = Some e1
           \<and> e = e1
               @ (let xs = filter (\<lambda>key. key \<notin> set (map name (paramsIn ''path'' ps))) (map fst vars)
                  in if xs \<noteq> [] then [''Unknown path parameters: '' @ join '', '' xs] else [])
               @ (let ms = filter (\<lambda>n. n \<notin> set (map fst vars))
                             (map name (filter (\<lambda>q. required q = Some True) (paramsIn ''path'' ps)))
                  in if ms \<noteq> [] then [''Missing required path parameters: '' @ join '', '' ms] else [])"
proof -
  from assms obtain e1 where loop: "pathParamLoop ajv vars (paramsIn ''path'' ps) es = Some e1"
    by (cases "pathParamLoop ajv vars (paramsIn ''path'' ps) es")
       (auto simp: validateUrlPathParam_def)
  with assms show ?thesis
    unfolding validateUrlPathParam_def Let_def by (auto split: if_splits)
qed

lemma validateUrlPathParam_missing:
  assumes "validateUrlPathParam ajv (Some vars) (Some ps) es = Some e"
    and "ParameterObject p \<in> set ps" and "location p = ''path''"
    and "required p = Some True" and "name p \<notin> fst ` set vars"
    and "name p \<notin> set objectPrototypeNames"
  shows "(''Missing required path parameter: '' @ name p) \<in> set e"
proof -
  note mem = paramsIn_mem [OF assms(2,3)]
  note none = getProperty_absent [OF assms(5,6)]
  from validateUrlPathParam_parts [OF assms(1)] obtain e1 where
    loop: "pathParamLoop ajv vars (paramsIn ''path'' (Some ps)) es = Some e1"
    and sub: "set e1 \<subseteq> set e"
    by (auto simp: Let_def)
  from pathParamLoop_missing [OF loop mem assms(4) none] sub show ?thesis by blast
qed

lemma validateUrlPathParam_missing_listed:
  assumes "validateUrlPathParam ajv (Some vars) (Some ps) es = Some e"
    and "ParameterObject p \<in> set ps" and "location p = ''path''"
    and "required p = Some True" and "name p \<notin> fst ` set vars"
  shows "\<exists>names. name p \<in> set names
           \<and> (''Missing required path parameters: '' @ join '', '' names) \<in> set e"
proof -
  define ms where "ms = filter (\<lambda>n. n \<notin> set (map fst vars))
      (map name (filter (\<lambda>q. required q = Some True) (paramsIn ''path'' (Some ps))))"
  have "name p \<in> set ms"
    using paramsIn_mem [OF assms(2,3)] assms(4,5) by (auto simp: ms_def)
  then have ne: "ms \<noteq> []" by auto
  from validateUrlPathParam_parts [OF assms(1)] ne
  have "(''Missing required path parameters: '' @ join '', '' ms) \<in> set e"
    unfolding ms_def Let_def by auto
  with \<open>name p \<in> set ms\<close> show ?thesis by blast
qed

subsection \<open>The validation returns when Ajv compiles the schemas\<close>

lemma checkSchema_returns:
  "ajv sch \<noteq> None \<Longrightarrow> \<exists>e. checkSchema ajv sch v msg es = Some e"
  by (auto simp: checkSchema_def split: option.splits)

lemma paramsIn_schema:
  assumes "p \<in> set (paramsIn loc ps)" and "schema p = Some sch"
  shows "sch \<in> set (parameterSchemas ps)"
  using assms
  by (auto simp: paramsIn_def parameterSchemas_def split: parameter_or_ref.splits if_splits
           intro!: bexI [where x = "ParameterObject p"])

lemma pathParamLoop_returns:
  assumes "\<forall>p \<in> set ps. \<forall>sch. schema p = Some sch \<longrightarrow> ajv sch \<noteq> None"
  shows "\<exists>e. pathParamLoop ajv vars ps es = Some e"
  using assms
proof (induction ps arbitrary: es)
  case Nil
  then show ?case by simp
next
  case (Cons p ps)
  then have rest: "\<And>es'. \<exists>e. pathParamLoop ajv vars ps es' = Some e"
    by simp
  show ?case
  proof (cases "truthy (required p)
                \<and> (getProperty vars (name p) = None \<or> getProperty vars (name p) = Some JNull)")
    case True
    with rest show ?thesis by (simp add: Let_def)
  next
    case False
    show ?thesis
    proof (cases "getProperty vars (name p)")
      case None
      with False rest show ?thesis by (auto simp: Let_def)
    next
      case (Some x)
      note x = this
      show ?thesis
      proof (cases "schema p")
        case None
        with False x rest show ?thesis by (auto simp: Let_def)
      next
        case (Some sch)
        with Cons.prems have "ajv sch \<noteq> None" by simp
        from checkSchema_returns [of ajv sch] this obtain e' where
          "checkSchema ajv sch x (''Invalid path parameter '' @ name p @ '': '') es = Some e'"
          by blast
        with False x Some rest [of e'] show ?thesis by (auto simp: Let_def)
      qed
    qed
  qed
qed

lemma queryParamLoop_returns:
  assumes "\<forall>p \<in> set ps. \<forall>sch. schema p = Some sch \<longrightarrow> ajv sch \<noteq> None"
    and "list_all (\<lambda>p. case getProperty q (name p) of None \<Rightarrow> True
                         | Some x \<Rightarrow> coerceQueryValue p x \<noteq> None) ps"
  shows "\<exists>e. queryParamLoop ajv q ps es = Some e"
  using assms
proof (induction ps arbitrary: es)
  case Nil
  then show ?case by simp
next
  case (Cons p ps)
  then have rest: "\<And>es'. \<exists>e. queryParamLoop ajv q ps es' = Some e"
    by simp
  show ?case
  proof (cases "truthy (required p)
                \<and> (getProperty q (name p) = None \<or> getProperty q (name p) = Some JNull
                    \<or> getProperty q (name p) = Some (JStr []))")
    case True
    with rest show ?thesis by (simp add: Let_def)
  next
    case False
    show ?thesis
    proof (cases "getProperty q (name p)")
      case None
      with False rest show ?thesis by (auto simp: Let_def)
    next
      case (Some x)
      note x = this
      show ?thesis
      proof (cases "schema p")
        case None
        with False x rest show ?thesis by (auto simp: Let_def)
      next
        case (Some sch)
        with Cons.prems have c: "ajv sch \<noteq> None" by simp
        from Cons.prems(2) x obtain y where y: "coerceQueryValue p x = Some y"
          by auto
        from checkSchema_returns [of ajv sch] c obtain e' where
          "checkSchema ajv sch y (''Invalid query parameter '' @ name p @ '': '') es = Some e'"
          by blast
        with False x Some c y rest [of e'] show ?thesis by (auto simp: Let_def)
      qed
    qed
  qed
qed

lemma headerParamLoop_returns:
  assumes "\<forall>p \<in> set ps. \<forall>sch. schema p = Some sch \<longrightarrow> ajv sch \<noteq> None"
  shows "\<exists>e. headerParamLoop ajv h ps es = Some e"
  using assms
proof (induction ps arbitrary: es)
  case Nil
  then show ?case by simp
next
  case (Cons p ps)
  then have rest: "\<And>es'. \<exists>e. headerParamLoop ajv h ps es' = Some e"
    by simp
  show ?case
  proof (cases "truthy (required p)
                \<and> (headerValue h (name p) = None \<or> headerValue h (name p) = Some JNull
                    \<or> headerValue h (name p) = Some (JStr []))")
    case True
    with rest show ?thesis by (simp add: Let_def)
  next
    case False
    show ?thesis
    proof (cases "headerValue h (name p)")
      case None
      with False rest show ?thesis by (auto simp: Let_def)
    next
      case (Some x)
      note x = this
      show ?thesis
      proof (cases "schema p")
        case None
        with False x rest show ?thesis by (auto simp: Let_def)
      next
        case (Some sch)
        with Cons.prems have "ajv sch \<noteq> None" by simp
        from checkSchema_returns [of ajv sch] this obtain e' where
          "checkSchema ajv sch x (''Invalid header parameter '' @ name p @ '': '') es = Some e'"
          by blast
        with False x Some rest [of e'] show ?thesis by (auto simp: Let_def)
      qed
    qed
  qed
qed

lemma compiled_in:
  assumes "\<forall>sch \<in> set (parameterSchemas ps). ajv sch \<noteq> None"
  shows "\<forall>p \<in> set (paramsIn loc ps). \<forall>sch. schema p = Some sch \<longrightarrow> ajv sch \<noteq> None"
  using assms paramsIn_schema by blast

lemma validateUrlPathParam_returns:
  assumes "\<forall>sch \<in> set (parameterSchemas ps). ajv sch \<noteq> None"
  shows "\<exists>e. validateUrlPathParam ajv vars ps es = Some e"
proof (cases vars)
  case None
  then show ?thesis by (simp add: validateUrlPathParam_def)
next
  case (Some kv)
  have "\<exists>e. pathParamLoop ajv kv (paramsIn ''path'' ps) es = Some e"
    by (rule pathParamLoop_returns) (rule compiled_in [OF assms])
  then obtain e1 where "pathParamLoop ajv kv (paramsIn ''path'' ps) es = Some e1" by blast
  with Some show ?thesis by (simp add: validateUrlPathParam_def Let_def)
qed

lemma validateUrlQueryParam_returns:
  assumes "\<forall>sch \<in> set (parameterSchemas ps). ajv sch \<noteq> None" and "coercible q ps"
  shows "\<exists>e. validateUrlQueryParam ajv q ps es = Some e"
proof (cases q)
  case None
  then show ?thesis by (simp add: validateUrlQueryParam_def)
next
  case (Some kv)
  with assms(2) have "list_all (\<lambda>p. case getProperty kv (name p) of None \<Rightarrow> True
                         | Some x \<Rightarrow> coerceQueryValue p x \<noteq> None) (paramsIn ''query'' ps)"
    by (simp add: coercible_def)
  then have "\<exists>e. queryParamLoop ajv kv (paramsIn ''query'' ps) es = Some e"
    by (intro queryParamLoop_returns compiled_in [OF assms(1)])
  with Some show ?thesis by (simp add: validateUrlQueryParam_def)
qed

lemma validateUrlHeaders_returns:
  assumes "\<forall>sch \<in> set (parameterSchemas ps). ajv sch \<noteq> None"
  shows "\<exists>e. validateUrlHeaders ajv h ps es = Some e"
proof (cases h)
  case None
  then show ?thesis by (simp add: validateUrlHeaders_def)
next
  case (Some hs)
  have "\<exists>e. headerParamLoop ajv hs (paramsIn ''header'' ps) es = Some e"
    by (rule headerParamLoop_returns) (rule compiled_in [OF assms])
  with Some show ?thesis by (simp add: validateUrlHeaders_def)
qed

lemma bodySchema_in:
  "bodySchema (content rb) cts = Some sch
   \<Longrightarrow> sch \<in> set (bodySchemas (Some (RequestBodyObject rb)))"
proof (induction cts)
  case Nil
  then show ?case by simp
next
  case (Cons ct cts)
  show ?case
  proof (cases "case content rb of None \<Rightarrow> None | Some c \<Rightarrow> map_of c ct")
    case None
    with Cons show ?thesis by simp
  next
    case (Some m)
    show ?thesis
    proof (cases m)
      case None
      with Some Cons show ?thesis by simp
    next
      case (Some sch')
      with \<open>(case content rb of None \<Rightarrow> None | Some c \<Rightarrow> map_of c ct) = Some m\<close> Cons.prems
      have eq: "sch' = sch" by simp
      from \<open>(case content rb of None \<Rightarrow> None | Some c \<Rightarrow> map_of c ct) = Some m\<close> Some
      obtain c where c: "content rb = Some c" "map_of c ct = Some (Some sch')"
        by (auto split: option.splits)
      then have "(ct, Some sch') \<in> set c" by (auto dest: map_of_SomeD)
      with c eq show ?thesis
        by (force simp: bodySchemas_def)
    qed
  qed
qed

lemma validateUrlRequestBody_returns:
  assumes "\<forall>sch \<in> set (bodySchemas ob). ajv sch \<noteq> None"
  shows "\<exists>e. validateUrlRequestBody ajv b ob es = Some e"
proof (cases ob)
  case None
  then show ?thesis by (simp add: validateUrlRequestBody_def)
next
  case (Some r)
  show ?thesis
  proof (cases r)
    case (RequestBodyRef x)
    with Some show ?thesis by (simp add: validateUrlRequestBody_def)
  next
    case (RequestBodyObject rb)
    have compiled: "\<And>sch. bodySchema (content rb)
                      [''application/json'', ''application/x-www-form-urlencoded'',
                       ''multipart/form-data''] = Some sch
            \<Longrightarrow> \<exists>e. checkSchema ajv sch v ''Invalid request body: '' es = Some e" for v
      using assms Some RequestBodyObject bodySchema_in checkSchema_returns by blast
    show ?thesis
      using Some RequestBodyObject compiled
      by (auto simp: validateUrlRequestBody_def Let_def split: option.splits)
  qed
qed

subsection \<open>The result of a validation that passes the path and method checks\<close>

lemma validateRequestParameters_resolved:
  assumes run: "validateRequestParameters ajv ajvLoose u doc m input = Some r"
    and pv: "validatePath doc u = Some pv" "pathValidateRes pv" "specPathItem pv = Some item"
    and op: "pathItemMember item (toLowerCase m) = Some op"
  shows "\<exists>ep eq eh eb.
           validateUrlPathParam ajv (urlVariables input) (parameters op) [] = Some ep \<and>
           validateUrlQueryParam ajv (urlQueryParams input) (parameters op) [] = Some eq \<and>
           validateUrlHeaders ajv (headers input) (parameters op) [] = Some eh \<and>
           validateUrlRequestBody ajvLoose (inputRequestBody input) (requestBody op) [] = Some eb \<and>
           r = \<lparr>isValid = (ep @ eq @ eh @ eb = []), errors = ep @ eq @ eh @ eb\<rparr>"
proof -
  from run pv op obtain e1 e2 e3 e4 where
    s1: "validateUrlPathParam ajv (urlVariables input) (parameters op) [] = Some e1" and
    s2: "validateUrlQueryParam ajv (urlQueryParams input) (parameters op) e1 = Some e2" and
    s3: "validateUrlHeaders ajv (headers input) (parameters op) e2 = Some e3" and
    s4: "validateUrlRequestBody ajvLoose (inputRequestBody input) (requestBody op) e3 = Some e4" and
    r: "r = \<lparr>isValid = (length e4 = 0), errors = e4\<rparr>"
    by (auto simp: validateRequestParameters_def split: option.splits)
  from s2 app_nil(2) [of ajv "urlQueryParams input" "parameters op" e1]
  obtain eq where q: "validateUrlQueryParam ajv (urlQueryParams input) (parameters op) [] = Some eq"
    and e2: "e2 = e1 @ eq"
    by (cases "validateUrlQueryParam ajv (urlQueryParams input) (parameters op) []") auto
  from s3 app_nil(3) [of ajv "headers input" "parameters op" e2]
  obtain eh where h: "validateUrlHeaders ajv (headers input) (parameters op) [] = Some eh"
    and e3: "e3 = e2 @ eh"
    by (cases "validateUrlHeaders ajv (headers input) (parameters op) []") auto
  from s4 app_nil(4) [of ajvLoose "inputRequestBody input" "requestBody op" e3]
  obtain eb where b: "validateUrlRequestBody ajvLoose (inputRequestBody input) (requestBody op) [] = Some eb"
    and e4: "e4 = e3 @ eb"
    by (cases "validateUrlRequestBody ajvLoose (inputRequestBody input) (requestBody op) []") auto
  from r e2 e3 e4 have "r = \<lparr>isValid = (e1 @ eq @ eh @ eb = []), errors = e1 @ eq @ eh @ eb\<rparr>"
    by simp
  with s1 q h b show ?thesis by blast
qed

lemma validateRequestParameters_returns:
  assumes pv: "validatePath doc u = Some pv" "pathValidateRes pv" "specPathItem pv = Some item"
    and op: "pathItemMember item (toLowerCase m) = Some op"
    and compiled: "\<forall>sch \<in> set (parameterSchemas (parameters op)). ajv sch \<noteq> None"
    and compiledBody: "\<forall>sch \<in> set (bodySchemas (requestBody op)). ajvLoose sch \<noteq> None"
    and numbers: "coercible (urlQueryParams input) (parameters op)"
  shows "\<exists>r. validateRequestParameters ajv ajvLoose u doc m input = Some r"
proof -
  note ps = compiled and body = compiledBody
  from validateUrlPathParam_returns [OF ps] obtain e1 where
    e1: "validateUrlPathParam ajv (urlVariables input) (parameters op) [] = Some e1" by blast
  from validateUrlQueryParam_returns [OF ps numbers] obtain e2 where
    e2: "validateUrlQueryParam ajv (urlQueryParams input) (parameters op) e1 = Some e2" by blast
  from validateUrlHeaders_returns [OF ps] obtain e3 where
    e3: "validateUrlHeaders ajv (headers input) (parameters op) e2 = Some e3" by blast
  from validateUrlRequestBody_returns [OF body] obtain e4 where
    e4: "validateUrlRequestBody ajvLoose (inputRequestBody input) (requestBody op) e3 = Some e4" by blast
  from pv op e1 e2 e3 e4 show ?thesis
    by (simp add: validateRequestParameters_def)
qed

subsection \<open>The example request\<close>

lemma validatePath_itemUrl:
  "validatePath browseDoc itemUrl =
     Some \<lparr>pathValidateRes = True, apiPath = ''/buy/browse/v1/item/{item_id}'',
           specPath = ''/item/{item_id}'', specPathItem = Some [(''get'', getItem)]\<rparr>"
  by code_simp

lemma validate_emptyInput:
  "validateRequestParameters ajvTypes ajvTypes itemUrl browseDoc ''GET'' emptyInput =
     Some \<lparr>isValid = False,
           errors = [''Missing required path parameter: item_id'',
                     ''Missing required path parameters: item_id'',
                     ''Missing required query parameter: fieldgroups'',
                     ''Missing required header parameter: X-EBAY-C-MARKETPLACE-ID'',
                     ''Missing required request body'']\<rparr>"
  by code_simp

subsection \<open>Empty strings and schema violations in the loops\<close>

lemma queryParamLoop_keeps:
  assumes "queryParamLoop ajv q ps es = Some e"
  shows "set es \<subseteq> set e"
proof -
  from assms queryParamLoop_app [of ajv q ps es "[]"]
  obtain e' where "e = es @ e'"
    by (cases "queryParamLoop ajv q ps []") auto
  then show ?thesis by simp
qed

lemma headerParamLoop_keeps:
  assumes "headerParamLoop ajv h ps es = Some e"
  shows "set es \<subseteq> set e"
proof -
  from assms headerParamLoop_app [of ajv h ps es "[]"]
  obtain e' where "e = es @ e'"
    by (cases "headerParamLoop ajv h ps []") auto
  then show ?thesis by simp
qed

lemma queryParamLoop_blank:
  assumes "queryParamLoop ajv q ps es = Some e"
    and "p \<in> set ps" and "required p = Some True" and "getProperty q (name p) = Some (JStr [])"
  shows "(''Missing required query parameter: '' @ name p) \<in> set e"
  using assms
proof (induction ps arbitrary: es)
  case Nil
  then show ?case by simp
next
  case (Cons x ps)
  show ?case
  proof (cases "x = p")
    case True
    with Cons.prems have "queryParamLoop ajv q ps
        (es @ [''Missing required query parameter: '' @ name p]) = Some e"
      by (simp add: truthy_def)
    from queryParamLoop_keeps [OF this] show ?thesis by simp
  next
    case False
    with Cons.prems have mem: "p \<in> set ps" by simp
    from Cons.prems(1) obtain es' where "queryParamLoop ajv q ps es' = Some e"
      by (auto simp: Let_def split: if_splits option.splits)
    from Cons.IH [OF this mem Cons.prems(3) Cons.prems(4)] show ?thesis .
  qed
qed

lemma headerParamLoop_blank:
  assumes "headerParamLoop ajv h ps es = Some e"
    and "p \<in> set ps" and "required p = Some True" and "headerValue h (name p) = Some (JStr [])"
  shows "(''Missing required header parameter: '' @ name p) \<in> set e"
  using assms
proof (induction ps arbitrary: es)
  case Nil
  then show ?case by simp
next
  case (Cons x ps)
  show ?case
  proof (cases "x = p")
    case True
    with Cons.prems have "headerParamLoop ajv h ps
        (es @ [''Missing required header parameter: '' @ name p]) = Some e"
      by (simp add: truthy_def)
    from headerParamLoop_keeps [OF this] show ?thesis by simp
  next
    case False
    with Cons.prems have mem: "p \<in> set ps" by simp
    from Cons.prems(1) obtain es' where "headerParamLoop ajv h ps es' = Some e"
      by (auto simp: Let_def split: if_splits option.splits)
    from Cons.IH [OF this mem Cons.prems(3) Cons.prems(4)] show ?thesis .
  qed
qed

text \<open>Where the messages of the path loop come from.\<close>

lemma pathParamLoop_messages:
  assumes "pathParamLoop ajv vars ps es = Some e" and "x \<in> set e"
  shows "x \<in> set es
       \<or> (\<exists>q \<in> set ps. x = ''Missing required path parameter: '' @ name q
             \<and> (getProperty vars (name q) = None \<or> getProperty vars (name q) = Some JNull))
       \<or> (\<exists>(q :: parameter) t. x = ''Invalid path parameter '' @ name q @ '': '' @ t)"
  using assms
proof (induction ps arbitrary: es)
  case Nil
  then show ?case by simp
next
  case (Cons p ps)
  from Cons.prems(1) obtain es' where
    loop: "pathParamLoop ajv vars ps es' = Some e" and
    es': "es' = es
        \<or> (es' = es @ [''Missing required path parameter: '' @ name p]
             \<and> (getProperty vars (name p) = None \<or> getProperty vars (name p) = Some JNull))
        \<or> (\<exists>t. es' = es @ [''Invalid path parameter '' @ name p @ '': '' @ t])"
    by (auto simp: Let_def checkSchema_def split: if_splits option.splits)
  define P where "P = (\<lambda>q :: parameter. x = ''Missing required path parameter: '' @ name q
             \<and> (getProperty vars (name q) = None \<or> getProperty vars (name q) = Some JNull))"
  define C where "C = (\<exists>(q :: parameter) t. x = ''Invalid path parameter '' @ name q @ '': '' @ t)"
  have ih: "x \<in> set es' \<or> (\<exists>q \<in> set ps. P q) \<or> C"
    unfolding P_def C_def by (rule Cons.IH [OF loop Cons.prems(2)])
  have here: "x \<in> set es \<or> P p \<or> C" if x: "x \<in> set es'"
  proof -
    from es' consider (same) "es' = es"
      | (missing) "es' = es @ [''Missing required path parameter: '' @ name p]"
          "getProperty vars (name p) = None \<or> getProperty vars (name p) = Some JNull"
      | (invalid) t where "es' = es @ [''Invalid path parameter '' @ name p @ '': '' @ t]"
      by blast
    then show ?thesis
    proof cases
      case same
      with x show ?thesis by simp
    next
      case missing
      from x missing(1) have "x \<in> set es \<or> x = ''Missing required path parameter: '' @ name p"
        by auto
      with missing(2) show ?thesis unfolding P_def by blast
    next
      case invalid
      with x have "x \<in> set es \<or> x = ''Invalid path parameter '' @ name p @ '': '' @ t"
        by auto
      then show ?thesis unfolding C_def by blast
    qed
  qed
  from ih here have "x \<in> set es \<or> (\<exists>q \<in> set (p # ps). P q) \<or> C"
    by auto
  then show ?case
    unfolding P_def C_def .
qed

lemma pathParamLoop_invalid:
  assumes "pathParamLoop ajv vars ps es = Some e"
    and "p \<in> set ps" and "getProperty vars (name p) = Some v" and "v \<noteq> JNull"
    and "schema p = Some sch" and "ajv sch = Some validate" and "validate v = Some t"
  shows "(''Invalid path parameter '' @ name p @ '': '' @ t) \<in> set e"
  using assms
proof (induction ps arbitrary: es)
  case Nil
  then show ?case by simp
next
  case (Cons x ps)
  show ?case
  proof (cases "x = p")
    case True
    with Cons.prems have "pathParamLoop ajv vars ps
        (es @ [''Invalid path parameter '' @ name p @ '': '' @ t]) = Some e"
      by (simp add: checkSchema_def)
    from pathParamLoop_keeps [OF this] show ?thesis by simp
  next
    case False
    with Cons.prems have mem: "p \<in> set ps" by simp
    from Cons.prems(1) obtain es' where "pathParamLoop ajv vars ps es' = Some e"
      by (auto simp: Let_def split: if_splits option.splits)
    from Cons.IH [OF this mem Cons.prems(3-7)] show ?thesis .
  qed
qed

lemma validateUrlPathParam_messages:
  assumes "validateUrlPathParam ajv (Some vars) ps [] = Some e" and "x \<in> set e"
  shows "(\<exists>q \<in> set (paramsIn ''path'' ps). x = ''Missing required path parameter: '' @ name q
             \<and> (getProperty vars (name q) = None \<or> getProperty vars (name q) = Some JNull))
       \<or> (\<exists>(q :: parameter) t. x = ''Invalid path parameter '' @ name q @ '': '' @ t)
       \<or> (\<exists>l. x = ''Unknown path parameters: '' @ l)
       \<or> (\<exists>l. x = ''Missing required path parameters: '' @ l)"
proof -
  from assms(1) obtain e1 where loop: "pathParamLoop ajv vars (paramsIn ''path'' ps) [] = Some e1"
    by (cases "pathParamLoop ajv vars (paramsIn ''path'' ps) []")
       (auto simp: validateUrlPathParam_def)
  define xs where "xs = filter (\<lambda>key. key \<notin> set (map name (paramsIn ''path'' ps))) (map fst vars)"
  define ms where "ms = filter (\<lambda>n. n \<notin> set (map fst vars))
                          (map name (filter (\<lambda>q. required q = Some True) (paramsIn ''path'' ps)))"
  define a where "a = (if xs \<noteq> [] then [''Unknown path parameters: '' @ join '', '' xs] else [])"
  define b where "b = (if ms \<noteq> [] then [''Missing required path parameters: '' @ join '', '' ms] else [])"
  have e: "e = e1 @ a @ b"
    using assms(1) loop unfolding a_def b_def xs_def ms_def validateUrlPathParam_def Let_def
    by (auto split: if_splits)
  have a: "a = [] \<or> (\<exists>l. a = [''Unknown path parameters: '' @ l])"
  proof (cases "xs = []")
    case True
    then show ?thesis by (simp add: a_def)
  next
    case False
    then have "a = [''Unknown path parameters: '' @ join '', '' xs]"
      by (simp add: a_def)
    then show ?thesis by blast
  qed
  have b: "b = [] \<or> (\<exists>l. b = [''Missing required path parameters: '' @ l])"
  proof (cases "ms = []")
    case True
    then show ?thesis by (simp add: b_def)
  next
    case False
    then have "b = [''Missing required path parameters: '' @ join '', '' ms]"
      by (simp add: b_def)
    then show ?thesis by blast
  qed
  from assms(2) e have "x \<in> set e1 \<or> x \<in> set a \<or> x \<in> set b" by auto
  then consider (loop) "x \<in> set e1" | (a) "x \<in> set a" | (b) "x \<in> set b" by blast
  then show ?thesis
  proof cases
    case loop
    have "x \<notin> set []" by simp
    with pathParamLoop_messages [OF \<open>pathParamLoop ajv vars (paramsIn ''path'' ps) [] = Some e1\<close> loop]
    show ?thesis by blast
  next
    case a
    with \<open>a = [] \<or> (\<exists>l. a = [''Unknown path parameters: '' @ l])\<close>
    have "\<exists>l. x = ''Unknown path parameters: '' @ l" by auto
    then show ?thesis by blast
  next
    case b
    with \<open>b = [] \<or> (\<exists>l. b = [''Missing required path parameters: '' @ l])\<close>
    have "\<exists>l. x = ''Missing required path parameters: '' @ l" by auto
    then show ?thesis by blast
  qed
qed

lemma validateUrlPathParam_blank:
  assumes run: "validateUrlPathParam ajv (Some vars) ps [] = Some e"
    and blank: "getProperty vars (name p) = Some (JStr [])"
  shows "(''Missing required path parameter: '' @ name p) \<notin> set e"
proof
  assume "(''Missing required path parameter: '' @ name p) \<in> set e"
  from validateUrlPathParam_messages [OF run this] blank show False
    by auto
qed

lemma validateUrlPathParam_invalid:
  assumes run: "validateUrlPathParam ajv (Some vars) (Some ps) es = Some e"
    and "ParameterObject p \<in> set ps" and "location p = ''path''"
    and "getProperty vars (name p) = Some v" and "v \<noteq> JNull"
    and "schema p = Some sch" and "ajv sch = Some validate" and "validate v = Some t"
  shows "(''Invalid path parameter '' @ name p @ '': '' @ t) \<in> set e"
proof -
  from run obtain e1 where loop: "pathParamLoop ajv vars (paramsIn ''path'' (Some ps)) es = Some e1"
    by (cases "pathParamLoop ajv vars (paramsIn ''path'' (Some ps)) es")
       (auto simp: validateUrlPathParam_def)
  have sub: "set e1 \<subseteq> set e"
    using run loop
    by (auto simp: validateUrlPathParam_def Let_def split: if_splits)
  from pathParamLoop_invalid [OF loop paramsIn_mem [OF assms(2,3)] assms(4-8)] sub
  show ?thesis by blast
qed

subsection \<open>Copying the caller's headers\<close>

lemma copyInputHeaders_other:
  "k \<notin> fst ` set es \<Longrightarrow> copyInputHeaders es hs k = hs k"
  by (induction es arbitrary: hs) auto

lemma copyInputHeaders_lookup:
  "distinct (map fst es) \<Longrightarrow> (k, v) \<in> set es \<Longrightarrow>
   copyInputHeaders es hs k = Some (case v of [] \<Rightarrow> None | x # _ \<Rightarrow> Some x)"
proof (induction es arbitrary: hs)
  case Nil
  then show ?case by simp
next
  case (Cons e es)
  obtain k' v' where e: "e = (k', v')" by (cases e)
  show ?case
  proof (cases "(k, v) = e")
    case True
    with Cons.prems e have "k \<notin> fst ` set es" by auto
    with True e show ?thesis by (simp add: copyInputHeaders_other)
  next
    case False
    with Cons.prems have "(k, v) \<in> set es" "distinct (map fst es)" by auto
    from Cons.IH [OF this(2) this(1)] e show ?thesis by simp
  qed
qed

subsection \<open>The example invocation\<close>

lemma parse_browseDoc:
  "parseOpenApiDoc (\<lambda>u. Returned ''{}'') (\<lambda>s. Returned browseDoc) (\<lambda>s. Returned emptyDocument)
     ''Browse API'' ''getItem'' RECALL_SPEC_WITH_FIELD_URL = Returned browseDoc"
  by (simp add: parseOpenApiDoc_def)

lemma replaceDomain_itemUrl:
  "replaceDomainNameByEnvironment PRODUCTION itemUrl = Some itemUrl"
  by code_simp

lemma invoke_without_item_id:
  "validateRequestParameters ajvTypes ajvTypes itemUrl browseDoc ''GET''
     \<lparr>urlVariables = Some [],
      urlQueryParams = map_option (map (\<lambda>(k, v). (k, JStr v))) (Some [(''fieldgroups'', ''PRODUCT'')]),
      headers = Some (buildHeadersFromInput PRODUCTION ''t0k''
                        (Some [(''X-EBAY-C-MARKETPLACE-ID'', [''EBAY_US''])]) False),
      inputRequestBody = Some [(''note'', JStr ''x'')]\<rparr>
   = Some \<lparr>isValid = False,
           errors = [''Missing required path parameter: item_id'',
                     ''Missing required path parameters: item_id'']\<rparr>"
  by code_simp

lemma invoke_with_item_id:
  "validateRequestParameters ajvTypes ajvTypes itemUrl browseDoc ''GET''
     \<lparr>urlVariables = Some [(''item_id'', JStr ''v1|1|0'')],
      urlQueryParams = map_option (map (\<lambda>(k, v). (k, JStr v))) (Some [(''fieldgroups'', ''PRODUCT'')]),
      headers = Some (buildHeadersFromInput PRODUCTION ''t0k''
                        (Some [(''X-EBAY-C-MARKETPLACE-ID'', [''EBAY_US''])]) False),
      inputRequestBody = Some [(''note'', JStr ''x'')]\<rparr>
   = Some \<lparr>isValid = True, errors = []\<rparr>"
  by code_simp

lemma finalUrl_itemUrl:
  "buildFinalUrl itemUrl (Some [(''item_id'', JStr ''v1|1|0'')]) = Some itemUrl"
  by code_simp

subsection \<open>Claims on the validation result\<close>

text \<open>
  C9. When a location bucket of the input is absent (no path-variable map, no query map
  or no header map), the validation of that location does nothing: the error list is
  returned as it was, whatever parameters are declared. So a request that leaves out all
  three buckets validates as \<open>isValid = True\<close> against an operation that declares a
  required parameter in the path, in the query and in the headers.
\<close>
theorem absent_bucket_is_not_checked:
  "validateUrlPathParam ajv None ps es = Some es \<and>
   validateUrlQueryParam ajv None ps es = Some es \<and>
   validateUrlHeaders ajv None ps es = Some es \<and>
   required (stringParam n loc) = Some True \<and>
   validateRequestParameters ajvTypes ajvTypes itemUrl browseDoc ''GET''
       \<lparr>urlVariables = None, urlQueryParams = None, headers = None,
        inputRequestBody = Some [(''note'', JStr ''x'')]\<rparr>
     = Some \<lparr>isValid = True, errors = []\<rparr>"
proof -
  have "validateRequestParameters ajvTypes ajvTypes itemUrl browseDoc ''GET''
       \<lparr>urlVariables = None, urlQueryParams = None, headers = None,
        inputRequestBody = Some [(''note'', JStr ''x'')]\<rparr>
     = Some \<lparr>isValid = True, errors = []\<rparr>"
    by code_simp
  then show ?thesis
    by (simp add: validateUrlPathParam_def validateUrlQueryParam_def validateUrlHeaders_def
        stringParam_def)
qed

text \<open>
  C3. For every input on which \<open>validateRequestParameters\<close> returns, \<open>isValid\<close> is true if
  and only if the error list is empty; and when the path resolves and the method has an
  operation, the error list is the violations of the path parameters, of the query
  parameters, of the headers and of the body, each computed on its own, one after the
  other.
\<close>
theorem validation_result_aggregates:
  assumes "validateRequestParameters ajv ajvLoose u doc m input = Some r"
  shows "(isValid r \<longleftrightarrow> errors r = []) \<and>
         (\<forall>pv item op.
            validatePath doc u = Some pv \<and> pathValidateRes pv \<and> specPathItem pv = Some item
              \<and> pathItemMember item (toLowerCase m) = Some op \<longrightarrow>
            (\<exists>ep eq eh eb.
               validateUrlPathParam ajv (urlVariables input) (parameters op) [] = Some ep \<and>
               validateUrlQueryParam ajv (urlQueryParams input) (parameters op) [] = Some eq \<and>
               validateUrlHeaders ajv (headers input) (parameters op) [] = Some eh \<and>
               validateUrlRequestBody ajvLoose (inputRequestBody input) (requestBody op) [] = Some eb \<and>
               errors r = ep @ eq @ eh @ eb))"
proof
  from assms show "isValid r \<longleftrightarrow> errors r = []"
    by (auto simp: validateRequestParameters_def split: option.splits)
next
  show "\<forall>pv item op.
            validatePath doc u = Some pv \<and> pathValidateRes pv \<and> specPathItem pv = Some item
              \<and> pathItemMember item (toLowerCase m) = Some op \<longrightarrow>
            (\<exists>ep eq eh eb.
               validateUrlPathParam ajv (urlVariables input) (parameters op) [] = Some ep \<and>
               validateUrlQueryParam ajv (urlQueryParams input) (parameters op) [] = Some eq \<and>
               validateUrlHeaders ajv (headers input) (parameters op) [] = Some eh \<and>
               validateUrlRequestBody ajvLoose (inputRequestBody input) (requestBody op) [] = Some eb \<and>
               errors r = ep @ eq @ eh @ eb)"
  proof (intro allI impI, elim conjE)
    fix pv item op
    assume "validatePath doc u = Some pv" "pathValidateRes pv" "specPathItem pv = Some item"
      "pathItemMember item (toLowerCase m) = Some op"
    from validateRequestParameters_resolved [OF assms this]
    show "\<exists>ep eq eh eb.
               validateUrlPathParam ajv (urlVariables input) (parameters op) [] = Some ep \<and>
               validateUrlQueryParam ajv (urlQueryParams input) (parameters op) [] = Some eq \<and>
               validateUrlHeaders ajv (headers input) (parameters op) [] = Some eh \<and>
               validateUrlRequestBody ajvLoose (inputRequestBody input) (requestBody op) [] = Some eb \<and>
               errors r = ep @ eq @ eh @ eb"
      by force
  qed
qed

theorem validation_result_aggregates_witness:
  "validateRequestParameters ajvTypes ajvTypes itemUrl browseDoc ''GET'' emptyInput =
     Some \<lparr>isValid = False,
           errors = [''Missing required path parameter: item_id'',
                     ''Missing required path parameters: item_id'',
                     ''Missing required query parameter: fieldgroups'',
                     ''Missing required header parameter: X-EBAY-C-MARKETPLACE-ID'',
                     ''Missing required request body'']\<rparr> \<and>
   (\<exists>ep eq eh eb.
      validateUrlPathParam ajvTypes (urlVariables emptyInput) (parameters getItem) [] = Some ep \<and>
      validateUrlQueryParam ajvTypes (urlQueryParams emptyInput) (parameters getItem) [] = Some eq \<and>
      validateUrlHeaders ajvTypes (headers emptyInput) (parameters getItem) [] = Some eh \<and>
      validateUrlRequestBody ajvTypes (inputRequestBody emptyInput) (requestBody getItem) [] = Some eb \<and>
      [''Missing required path parameter: item_id'',
       ''Missing required path parameters: item_id'',
       ''Missing required query parameter: fieldgroups'',
       ''Missing required header parameter: X-EBAY-C-MARKETPLACE-ID'',
       ''Missing required request body''] = ep @ eq @ eh @ eb)"
proof -
  have op: "pathItemMember [(''get'', getItem)] (toLowerCase ''GET'') = Some getItem"
    by code_simp
  from validation_result_aggregates [OF validate_emptyInput]
  have "\<forall>pv item op.
            validatePath browseDoc itemUrl = Some pv \<and> pathValidateRes pv \<and> specPathItem pv = Some item
              \<and> pathItemMember item (toLowerCase ''GET'') = Some op \<longrightarrow>
            (\<exists>ep eq eh eb.
               validateUrlPathParam ajvTypes (urlVariables emptyInput) (parameters op) [] = Some ep \<and>
               validateUrlQueryParam ajvTypes (urlQueryParams emptyInput) (parameters op) [] = Some eq \<and>
               validateUrlHeaders ajvTypes (headers emptyInput) (parameters op) [] = Some eh \<and>
               validateUrlRequestBody ajvTypes (inputRequestBody emptyInput) (requestBody op) [] = Some eb \<and>
               [''Missing required path parameter: item_id'',
                ''Missing required path parameters: item_id'',
                ''Missing required query parameter: fieldgroups'',
                ''Missing required header parameter: X-EBAY-C-MARKETPLACE-ID'',
                ''Missing required request body''] = ep @ eq @ eh @ eb)"
    by simp
  from this [rule_format, of _ "[(''get'', getItem)]" getItem] validatePath_itemUrl op
  have "\<exists>ep eq eh eb.
      validateUrlPathParam ajvTypes (urlVariables emptyInput) (parameters getItem) [] = Some ep \<and>
      validateUrlQueryParam ajvTypes (urlQueryParams emptyInput) (parameters getItem) [] = Some eq \<and>
      validateUrlHeaders ajvTypes (headers emptyInput) (parameters getItem) [] = Some eh \<and>
      validateUrlRequestBody ajvTypes (inputRequestBody emptyInput) (requestBody getItem) [] = Some eb \<and>
      [''Missing required path parameter: item_id'',
       ''Missing required path parameters: item_id'',
       ''Missing required query parameter: fieldgroups'',
       ''Missing required header parameter: X-EBAY-C-MARKETPLACE-ID'',
       ''Missing required request body''] = ep @ eq @ eh @ eb"
    by simp
  with validate_emptyInput show ?thesis by blast
qed

text \<open>
  C1. For every operation and every declared required path parameter whose name is absent
  from the supplied path-variable map: when Ajv compiles the schemas of the operation (and
  the query values that are converted to numbers are strings on which \<open>Number\<close> is
  modelled), \<open>validateRequestParameters\<close> returns, with \<open>isValid = False\<close>, and the error
  list holds \<open>Missing required path parameters: \<close> followed by a list of names that has the
  name of that parameter; it also holds \<open>Missing required path parameter: \<close> followed by
  that name, unless the name is that of a member of \<open>Object.prototype\<close>, which the lookup
  in the path-variable map finds.
\<close>
theorem missing_required_path_parameter_is_named:
  assumes pv: "validatePath doc u = Some pv" "pathValidateRes pv" "specPathItem pv = Some item"
    and op: "pathItemMember item (toLowerCase m) = Some op"
    and compiled: "\<forall>sch \<in> set (parameterSchemas (parameters op)). ajv sch \<noteq> None"
    and compiledBody: "\<forall>sch \<in> set (bodySchemas (requestBody op)). ajvLoose sch \<noteq> None"
    and numbers: "coercible (urlQueryParams input) (parameters op)"
    and decl: "parameters op = Some ps" "ParameterObject p \<in> set ps"
      "location p = ''path''" "required p = Some True"
    and absent: "urlVariables input = Some vars" "name p \<notin> fst ` set vars"
  shows "\<exists>r. validateRequestParameters ajv ajvLoose u doc m input = Some r \<and> \<not> isValid r
           \<and> (\<exists>names. name p \<in> set names
                 \<and> (''Missing required path parameters: '' @ join '', '' names) \<in> set (errors r))
           \<and> (name p \<notin> set objectPrototypeNames
                 \<longrightarrow> (''Missing required path parameter: '' @ name p) \<in> set (errors r))"
proof -
  from validateRequestParameters_returns [OF pv op compiled compiledBody numbers]
  obtain r where run: "validateRequestParameters ajv ajvLoose u doc m input = Some r"
    by blast
  from validateRequestParameters_resolved [OF run pv op] obtain ep eq eh eb where
    ep: "validateUrlPathParam ajv (urlVariables input) (parameters op) [] = Some ep" and
    r: "r = \<lparr>isValid = (ep @ eq @ eh @ eb = []), errors = ep @ eq @ eh @ eb\<rparr>"
    by blast
  from ep decl(1) absent(1) have path: "validateUrlPathParam ajv (Some vars) (Some ps) [] = Some ep"
    by simp
  from validateUrlPathParam_missing_listed [OF path decl(2) decl(3) decl(4) absent(2)]
  obtain names where names: "name p \<in> set names"
    and plural: "(''Missing required path parameters: '' @ join '', '' names) \<in> set ep"
    by blast
  from plural r have listed: "(''Missing required path parameters: '' @ join '', '' names) \<in> set (errors r)"
    by simp
  from plural r have invalid: "\<not> isValid r"
    by auto
  have single: "name p \<notin> set objectPrototypeNames
                  \<longrightarrow> (''Missing required path parameter: '' @ name p) \<in> set (errors r)"
  proof
    assume "name p \<notin> set objectPrototypeNames"
    from validateUrlPathParam_missing [OF path decl(2) decl(3) decl(4) absent(2) this]
    have "(''Missing required path parameter: '' @ name p) \<in> set ep" .
    with r show "(''Missing required path parameter: '' @ name p) \<in> set (errors r)"
      by simp
  qed
  from names listed have "\<exists>names. name p \<in> set names
      \<and> (''Missing required path parameters: '' @ join '', '' names) \<in> set (errors r)"
    by blast
  with run invalid single show ?thesis
    by blast
qed

theorem missing_required_path_parameter_is_named_witness:
  "\<exists>r. validateRequestParameters ajvTypes ajvTypes itemUrl browseDoc ''GET'' emptyInput = Some r
      \<and> \<not> isValid r
      \<and> (\<exists>names. ''item_id'' \<in> set names
            \<and> (''Missing required path parameters: '' @ join '', '' names) \<in> set (errors r))
      \<and> ''Missing required path parameter: item_id'' \<in> set (errors r)"
proof -
  have op: "pathItemMember [(''get'', getItem)] (toLowerCase ''GET'') = Some getItem"
    by code_simp
  have compiled: "\<forall>sch \<in> set (parameterSchemas (parameters getItem)). ajvTypes sch \<noteq> None"
    by (simp add: parameterSchemas_def getItem_def stringParam_def ajvTypes_def)
  have compiledBody: "\<forall>sch \<in> set (bodySchemas (requestBody getItem)). ajvTypes sch \<noteq> None"
    by (simp add: bodySchemas_def getItem_def)
  have numbers: "coercible (urlQueryParams emptyInput) (parameters getItem)"
    by code_simp
  have ps: "parameters getItem = Some [ParameterObject (stringParam ''item_id'' ''path''),
                         ParameterObject (stringParam ''fieldgroups'' ''query''),
                         ParameterObject (stringParam ''X-EBAY-C-MARKETPLACE-ID'' ''header'')]"
    by (simp add: getItem_def)
  have own: "name (stringParam ''item_id'' ''path'') \<notin> set objectPrototypeNames"
    by code_simp
  have "\<exists>r. validateRequestParameters ajvTypes ajvTypes itemUrl browseDoc ''GET'' emptyInput = Some r
      \<and> \<not> isValid r
      \<and> (\<exists>names. name (stringParam ''item_id'' ''path'') \<in> set names
            \<and> (''Missing required path parameters: '' @ join '', '' names) \<in> set (errors r))
      \<and> (name (stringParam ''item_id'' ''path'') \<notin> set objectPrototypeNames
            \<longrightarrow> (''Missing required path parameter: '' @ name (stringParam ''item_id'' ''path''))
                  \<in> set (errors r))"
    by (rule missing_required_path_parameter_is_named
          [OF validatePath_itemUrl _ _ op compiled compiledBody numbers ps, where vars = "[]"])
       (simp_all add: stringParam_def emptyInput_def)
  with own show ?thesis
    by (simp add: stringParam_def)
qed

text \<open>
  Without the condition on Ajv the result is not promised. The operation
  \<open>searchItems\<close> declares the required path parameter \<open>item_id\<close> and a query parameter
  whose schema is a reference; a request that leaves \<open>item_id\<close> out and supplies the query
  parameter is not answered by a result, since compiling the reference throws. And a
  required path parameter named \<open>constructor\<close> that is left out gets no
  \<open>Missing required path parameter: constructor\<close>: the lookup finds the inherited member.
\<close>
theorem missing_path_parameter_without_result_counterexample:
  "parameters searchItems = Some [ParameterObject (stringParam ''item_id'' ''path''),
                                  ParameterObject filterParam,
                                  ParameterObject (stringParam ''fieldgroups'' ''query'')]
   \<and> location (stringParam ''item_id'' ''path'') = ''path''
   \<and> required (stringParam ''item_id'' ''path'') = Some True
   \<and> validateRequestParameters ajvTypes ajvTypes itemUrl searchDoc ''GET''
        \<lparr>urlVariables = Some [], urlQueryParams = Some [(''filter'', JStr ''x'')],
         headers = Some Map.empty, inputRequestBody = None\<rparr> = None
   \<and> validateUrlPathParam ajvTypes (Some [])
        (Some [ParameterObject (stringParam ''constructor'' ''path'')]) []
       = Some [''Invalid path parameter constructor: data must be string'',
               ''Missing required path parameters: constructor'']"
proof -
  have run: "validateRequestParameters ajvTypes ajvTypes itemUrl searchDoc ''GET''
        \<lparr>urlVariables = Some [], urlQueryParams = Some [(''filter'', JStr ''x'')],
         headers = Some Map.empty, inputRequestBody = None\<rparr> = None"
    by code_simp
  have inherited: "validateUrlPathParam ajvTypes (Some [])
        (Some [ParameterObject (stringParam ''constructor'' ''path'')]) []
       = Some [''Invalid path parameter constructor: data must be string'',
               ''Missing required path parameters: constructor'']"
    by code_simp
  from run inherited show ?thesis
    by (simp add: searchItems_def stringParam_def)
qed

text \<open>
  C10. The empty string is treated differently by the required-parameter checks. When Ajv
  compiles the schemas of the declared parameters: for a declared required query parameter
  supplied as \<open>""\<close> (the supplied query values being strings on which \<open>Number\<close> is
  modelled, where a number is asked for), and for a declared required header parameter
  whose value is \<open>""\<close>, the validator returns and the error list holds the
  missing-required-parameter message of that parameter. For a declared required path
  parameter supplied as \<open>""\<close> the validator returns and the presence check passes: no
  \<open>Missing required path parameter\<close> message of that parameter is produced, and the value
  goes to schema validation, whose failure is reported as \<open>Invalid path parameter\<close>.
\<close>
theorem empty_string_missing_for_query_and_header_not_path:
  assumes "ParameterObject p \<in> set ps" and "required p = Some True"
    and compiled: "\<forall>sch \<in> set (parameterSchemas (Some ps)). ajv sch \<noteq> None"
  shows "(location p = ''query'' \<and> map_of q (name p) = Some (JStr [])
            \<and> coercible (Some q) (Some ps)
          \<longrightarrow> (\<exists>e. validateUrlQueryParam ajv (Some q) (Some ps) es = Some e
                 \<and> (''Missing required query parameter: '' @ name p) \<in> set e))
       \<and> (location p = ''header'' \<and> readHeader h (name p) = Some (JStr [])
            \<and> (readHeader h (toLowerCase (name p)) = None
                 \<or> readHeader h (toLowerCase (name p)) = Some (JStr []))
          \<longrightarrow> (\<exists>e. validateUrlHeaders ajv (Some h) (Some ps) es = Some e
                 \<and> (''Missing required header parameter: '' @ name p) \<in> set e))
       \<and> (location p = ''path'' \<and> map_of vars (name p) = Some (JStr [])
          \<longrightarrow> (\<exists>e. validateUrlPathParam ajv (Some vars) (Some ps) [] = Some e
                 \<and> (''Missing required path parameter: '' @ name p) \<notin> set e
                 \<and> (\<forall>sch validate t.
                       schema p = Some sch \<and> ajv sch = Some validate \<and> validate (JStr []) = Some t
                       \<longrightarrow> (''Invalid path parameter '' @ name p @ '': '' @ t) \<in> set e)))"
proof -
  have query: "\<exists>e. validateUrlQueryParam ajv (Some q) (Some ps) es = Some e
                 \<and> (''Missing required query parameter: '' @ name p) \<in> set e"
    if loc: "location p = ''query''" and own: "map_of q (name p) = Some (JStr [])"
      and numbers: "coercible (Some q) (Some ps)"
  proof -
    from validateUrlQueryParam_returns [OF compiled numbers, of es]
    obtain e where run: "validateUrlQueryParam ajv (Some q) (Some ps) es = Some e"
      by blast
    then have loop: "queryParamLoop ajv q (paramsIn ''query'' (Some ps)) es = Some e"
      by (simp add: validateUrlQueryParam_def)
    from queryParamLoop_blank [OF loop paramsIn_mem [OF assms(1) loc] assms(2) getProperty_own [OF own]]
    have "(''Missing required query parameter: '' @ name p) \<in> set e" .
    with run show ?thesis by blast
  qed
  have header: "\<exists>e. validateUrlHeaders ajv (Some h) (Some ps) es = Some e
                 \<and> (''Missing required header parameter: '' @ name p) \<in> set e"
    if loc: "location p = ''header''" and v: "readHeader h (name p) = Some (JStr [])"
      and low: "readHeader h (toLowerCase (name p)) = None
                 \<or> readHeader h (toLowerCase (name p)) = Some (JStr [])"
  proof -
    from validateUrlHeaders_returns [OF compiled, of "Some h" es]
    obtain e where run: "validateUrlHeaders ajv (Some h) (Some ps) es = Some e"
      by blast
    then have loop: "headerParamLoop ajv h (paramsIn ''header'' (Some ps)) es = Some e"
      by (simp add: validateUrlHeaders_def)
    from v low have blank: "headerValue h (name p) = Some (JStr [])"
      by (auto simp: headerValue_def)
    from headerParamLoop_blank [OF loop paramsIn_mem [OF assms(1) loc] assms(2) blank]
    have "(''Missing required header parameter: '' @ name p) \<in> set e" .
    with run show ?thesis by blast
  qed
  have path: "\<exists>e. validateUrlPathParam ajv (Some vars) (Some ps) [] = Some e
                 \<and> (''Missing required path parameter: '' @ name p) \<notin> set e
                 \<and> (\<forall>sch validate t.
                       schema p = Some sch \<and> ajv sch = Some validate \<and> validate (JStr []) = Some t
                       \<longrightarrow> (''Invalid path parameter '' @ name p @ '': '' @ t) \<in> set e)"
    if loc: "location p = ''path''" and own: "map_of vars (name p) = Some (JStr [])"
  proof -
    from validateUrlPathParam_returns [OF compiled, of "Some vars" "[]"]
    obtain e where run: "validateUrlPathParam ajv (Some vars) (Some ps) [] = Some e"
      by blast
    note blank = getProperty_own [OF own]
    from validateUrlPathParam_blank [OF run blank]
    have none: "(''Missing required path parameter: '' @ name p) \<notin> set e" .
    have invalid: "\<forall>sch validate t.
          schema p = Some sch \<and> ajv sch = Some validate \<and> validate (JStr []) = Some t
          \<longrightarrow> (''Invalid path parameter '' @ name p @ '': '' @ t) \<in> set e"
    proof (intro allI impI, elim conjE)
      fix sch validate t
      assume "schema p = Some sch" "ajv sch = Some validate" "validate (JStr []) = Some t"
      from validateUrlPathParam_invalid [OF run assms(1) loc blank _ this]
      show "(''Invalid path parameter '' @ name p @ '': '' @ t) \<in> set e" by simp
    qed
    from run none invalid show ?thesis by blast
  qed
  from query header path show ?thesis
    by blast
qed

theorem empty_string_missing_for_query_and_header_not_path_witness:
  "(\<exists>e. validateUrlQueryParam ajvTypes (Some [(''fieldgroups'', JStr [])]) (parameters getItem) []
            = Some e
        \<and> ''Missing required query parameter: fieldgroups'' \<in> set e)
   \<and> (\<exists>e. validateUrlHeaders ajvTypes (Some [''X-EBAY-C-MARKETPLACE-ID'' \<mapsto> Some []])
             (parameters getItem) [] = Some e
        \<and> ''Missing required header parameter: X-EBAY-C-MARKETPLACE-ID'' \<in> set e)
   \<and> (\<exists>e. validateUrlPathParam ajvTypes (Some [(''order_id'', JStr [])])
             (Some [ParameterObject orderParam]) [] = Some e
        \<and> ''Missing required path parameter: order_id'' \<notin> set e
        \<and> ''Invalid path parameter order_id: data must be integer'' \<in> set e)"
proof -
  let ?ps = "[ParameterObject (stringParam ''item_id'' ''path''),
              ParameterObject (stringParam ''fieldgroups'' ''query''),
              ParameterObject (stringParam ''X-EBAY-C-MARKETPLACE-ID'' ''header'')]"
  let ?h = "[''X-EBAY-C-MARKETPLACE-ID'' \<mapsto> Some []] :: headerMap"
  have ps: "parameters getItem = Some ?ps"
    by (simp add: getItem_def)
  have compiled: "\<forall>sch \<in> set (parameterSchemas (Some ?ps)). ajvTypes sch \<noteq> None"
    by (simp add: parameterSchemas_def stringParam_def ajvTypes_def)
  have compiled': "\<forall>sch \<in> set (parameterSchemas (Some [ParameterObject orderParam])). ajvTypes sch \<noteq> None"
    by (simp add: parameterSchemas_def orderParam_def ajvTypes_def)
  have numbers: "coercible (Some [(''fieldgroups'', JStr [])]) (Some ?ps)"
    by code_simp
  have h_own: "readHeader ?h ''X-EBAY-C-MARKETPLACE-ID'' = Some (JStr [])"
    by code_simp
  have h_low: "readHeader ?h (toLowerCase ''X-EBAY-C-MARKETPLACE-ID'') = None"
    by code_simp
  have sch: "ajvTypes (SchemaObject (Some TInteger) None [])
               = Some (\<lambda>v. case typeErrors (SchemaObject (Some TInteger) None []) [] v of
                              [] \<Rightarrow> None | es \<Rightarrow> Some (join '', '' es))"
    by (simp add: ajvTypes_def)
  have query: "\<exists>e. validateUrlQueryParam ajvTypes (Some [(''fieldgroups'', JStr [])]) (Some ?ps) []
                      = Some e
                 \<and> (''Missing required query parameter: '' @ name (stringParam ''fieldgroups'' ''query''))
                      \<in> set e"
    using empty_string_missing_for_query_and_header_not_path
            [of "stringParam ''fieldgroups'' ''query''" ?ps ajvTypes "[(''fieldgroups'', JStr [])]"
                "[]", OF _ _ compiled]
      numbers
    by (simp add: stringParam_def)
  have header: "\<exists>e. validateUrlHeaders ajvTypes (Some ?h) (Some ?ps) [] = Some e
                 \<and> (''Missing required header parameter: ''
                       @ name (stringParam ''X-EBAY-C-MARKETPLACE-ID'' ''header'')) \<in> set e"
    using empty_string_missing_for_query_and_header_not_path
            [of "stringParam ''X-EBAY-C-MARKETPLACE-ID'' ''header''" ?ps ajvTypes _ "[]" ?h,
             OF _ _ compiled]
      h_own h_low
    by (simp add: stringParam_def)
  have path: "\<exists>e. validateUrlPathParam ajvTypes (Some [(''order_id'', JStr [])])
                     (Some [ParameterObject orderParam]) [] = Some e
                \<and> (''Missing required path parameter: '' @ name orderParam) \<notin> set e
                \<and> (\<forall>sch validate t.
                      schema orderParam = Some sch \<and> ajvTypes sch = Some validate
                        \<and> validate (JStr []) = Some t
                      \<longrightarrow> (''Invalid path parameter '' @ name orderParam @ '': '' @ t) \<in> set e)"
    using empty_string_missing_for_query_and_header_not_path
            [of orderParam "[ParameterObject orderParam]" ajvTypes _ _ _ "[(''order_id'', JStr [])]",
             OF _ _ compiled']
    by (simp add: orderParam_def)
  then obtain e where run: "validateUrlPathParam ajvTypes (Some [(''order_id'', JStr [])])
                     (Some [ParameterObject orderParam]) [] = Some e"
    and none: "(''Missing required path parameter: '' @ name orderParam) \<notin> set e"
    and all: "\<forall>sch validate t.
                      schema orderParam = Some sch \<and> ajvTypes sch = Some validate
                        \<and> validate (JStr []) = Some t
                      \<longrightarrow> (''Invalid path parameter '' @ name orderParam @ '': '' @ t) \<in> set e"
    by blast
  from all sch have "(''Invalid path parameter '' @ name orderParam @ '': '' @ ''data must be integer'')
                       \<in> set e"
    by (simp add: orderParam_def)
  with run none have path': "\<exists>e. validateUrlPathParam ajvTypes (Some [(''order_id'', JStr [])])
             (Some [ParameterObject orderParam]) [] = Some e
        \<and> ''Missing required path parameter: order_id'' \<notin> set e
        \<and> ''Invalid path parameter order_id: data must be integer'' \<in> set e"
    by (auto simp: orderParam_def)
  from query header path' ps show ?thesis
    by (simp add: stringParam_def)
qed

text \<open>
  Without the condition on Ajv the report is not promised. The operation
  \<open>searchItems\<close> declares a query parameter whose schema is a reference before the required
  query parameter \<open>fieldgroups\<close>; when both are supplied, \<open>fieldgroups\<close> as \<open>""\<close>, compiling
  the reference throws and no missing-required-parameter violation is reported.
\<close>
theorem empty_query_value_without_report_counterexample:
  "parameters searchItems = Some [ParameterObject (stringParam ''item_id'' ''path''),
                                  ParameterObject filterParam,
                                  ParameterObject (stringParam ''fieldgroups'' ''query'')]
   \<and> location (stringParam ''fieldgroups'' ''query'') = ''query''
   \<and> required (stringParam ''fieldgroups'' ''query'') = Some True
   \<and> validateUrlQueryParam ajvTypes (Some [(''filter'', JStr ''x''), (''fieldgroups'', JStr [])])
        (parameters searchItems) [] = None"
proof -
  have "validateUrlQueryParam ajvTypes (Some [(''filter'', JStr ''x''), (''fieldgroups'', JStr [])])
        (parameters searchItems) [] = None"
    by code_simp
  then show ?thesis
    by (simp add: searchItems_def stringParam_def)
qed

subsection \<open>Claims on the outbound request\<close>

text \<open>
  C7. When the default headers are filled in, the header values supplied by the caller are
  kept, with exactly three exceptions and not two: \<open>Host\<close>, \<open>User-Agent\<close> and
  \<open>Authorization\<close> are always set by the system, also over a supplied value. A supplied
  \<open>Content-Type\<close> that is not the empty string is kept, and every other supplied header
  keeps the first element of its array of values.
\<close>
theorem default_headers_keep_caller_values:
  assumes hs: "hs = buildHeadersFromInput USER_ENVIRONMENT USER_TOKEN (Some es) needSetHostByEnv"
    and keys: "distinct (map fst es)" and supplied: "(k, v) \<in> set es"
  shows "hs ''Host'' = Some (Some (if needSetHostByEnv then DOMAIN_NAME USER_ENVIRONMENT
                                     else DOMAIN_NAME PRODUCTION))
       \<and> hs ''User-Agent'' = Some (Some ''EBAY-API-MCP-Tool/1.0'')
       \<and> hs ''Authorization'' = Some (Some (''Bearer '' @ USER_TOKEN))
       \<and> (k \<notin> {''Host'', ''User-Agent'', ''Authorization'', ''Content-Type''}
            \<longrightarrow> hs k = Some (case v of [] \<Rightarrow> None | x # _ \<Rightarrow> Some x))
       \<and> (k = ''Content-Type''
            \<longrightarrow> (\<forall>x xs. v = x # xs \<and> x \<noteq> [] \<longrightarrow> hs k = Some (Some x)))"
proof -
  have look: "copyInputHeaders es Map.empty k = Some (case v of [] \<Rightarrow> None | x # _ \<Rightarrow> Some x)"
    by (rule copyInputHeaders_lookup [OF keys supplied])
  show ?thesis
    unfolding hs buildHeadersFromInput_def fillDefaultHeaderInfo_def Let_def
    using look by (auto split: option.splits)
qed

theorem default_headers_keep_caller_values_witness:
  "buildHeadersFromInput SANDBOX ''t0k'' (Some [(''Content-Type'', [''text/xml'']), (''X-Trace'', [''abc'', ''def''])]) True ''Content-Type''
     = Some (Some ''text/xml'')
   \<and> buildHeadersFromInput SANDBOX ''t0k'' (Some [(''Content-Type'', [''text/xml'']), (''X-Trace'', [''abc'', ''def''])]) True ''X-Trace''
     = Some (Some ''abc'')
   \<and> buildHeadersFromInput SANDBOX ''t0k'' (Some [(''Content-Type'', [''text/xml'']), (''X-Trace'', [''abc'', ''def''])]) True ''Host''
     = Some (Some ''api.sandbox.ebay.com'')"
  using default_headers_keep_caller_values
          [OF refl, of "[(''Content-Type'', [''text/xml'']), (''X-Trace'', [''abc'', ''def''])]"
              "''Content-Type''" "[''text/xml'']" SANDBOX "''t0k''" True]
        default_headers_keep_caller_values
          [OF refl, of "[(''Content-Type'', [''text/xml'']), (''X-Trace'', [''abc'', ''def''])]"
              "''X-Trace''" "[''abc'', ''def'']" SANDBOX "''t0k''" True]
  by simp

theorem user_agent_is_overridden_counterexample:
  "buildHeadersFromInput PRODUCTION ''t0k'' (Some [(''User-Agent'', [''curl/8''])]) False ''User-Agent''
     \<noteq> Some (Some ''curl/8'')"
  by (simp add: buildHeadersFromInput_def fillDefaultHeaderInfo_def)

subsection \<open>Claims on the loader and on the invoke operation\<close>

text \<open>
  C8. For every fetched document body on which both parsers throw, \<open>parseOpenApiDoc\<close>
  returns the empty document to its caller and does not throw. JSON is tried first: when
  the JSON parser returns, its result is the document, whatever the YAML parser would do;
  the YAML parser decides only when the JSON parser has thrown.
\<close>

theorem unparsable_document_gives_empty_document:
  assumes "axiosGet (utilFormat specUrl [specTitle, operationId]) = Returned docString"
  shows "(\<forall>jsonError yamlError.
            jsonParse docString = Threw jsonError \<and> yamlLoad docString = Threw yamlError
            \<longrightarrow> parseOpenApiDoc axiosGet jsonParse yamlLoad specTitle operationId specUrl
                  = Returned emptyDocument)
       \<and> (\<forall>d. jsonParse docString = Returned d
            \<longrightarrow> parseOpenApiDoc axiosGet jsonParse yamlLoad specTitle operationId specUrl
                  = Returned d)
       \<and> (\<forall>jsonError d.
            jsonParse docString = Threw jsonError \<and> yamlLoad docString = Returned d
            \<longrightarrow> parseOpenApiDoc axiosGet jsonParse yamlLoad specTitle operationId specUrl
                  = Returned d)"
  using assms by (simp add: parseOpenApiDoc_def)

theorem unparsable_document_gives_empty_document_witness:
  "parseOpenApiDoc (\<lambda>u. Returned ''<html>'') (\<lambda>s. Threw (Error ''Unexpected token''))
       (\<lambda>s. Threw (Error ''bad indentation'')) ''Browse API'' ''getItem''
       RECALL_SPEC_WITH_FIELD_URL = Returned emptyDocument
   \<and> parseOpenApiDoc (\<lambda>u. Returned ''{}'') (\<lambda>s. Returned browseDoc)
       (\<lambda>s. Returned emptyDocument) ''Browse API'' ''getItem''
       RECALL_SPEC_WITH_FIELD_URL = Returned browseDoc
   \<and> parseOpenApiDoc (\<lambda>u. Returned ''paths: {}'') (\<lambda>s. Threw (Error ''Unexpected token''))
       (\<lambda>s. Returned browseDoc) ''Browse API'' ''getItem''
       RECALL_SPEC_WITH_FIELD_URL = Returned browseDoc"
  using unparsable_document_gives_empty_document
          [of "\<lambda>u. Returned ''<html>''" RECALL_SPEC_WITH_FIELD_URL "''Browse API''" "''getItem''"
              "''<html>''" "\<lambda>s. Threw (Error ''Unexpected token'')"
              "\<lambda>s. Threw (Error ''bad indentation'')"]
        unparsable_document_gives_empty_document
          [of "\<lambda>u. Returned ''{}''" RECALL_SPEC_WITH_FIELD_URL "''Browse API''" "''getItem''"
              "''{}''" "\<lambda>s. Returned browseDoc" "\<lambda>s. Returned emptyDocument"]
        unparsable_document_gives_empty_document
          [of "\<lambda>u. Returned ''paths: {}''" RECALL_SPEC_WITH_FIELD_URL "''Browse API''" "''getItem''"
              "''paths: {}''" "\<lambda>s. Threw (Error ''Unexpected token'')" "\<lambda>s. Returned browseDoc"]
  by simp

text \<open>
  C6. For every invocation of the generic invoke operation on which the handler returns:
  if \<open>validateRequestParameters\<close> returns \<open>isValid = False\<close>, no request to the API is sent
  (only the lookup of the specification, which precedes validation) and the caller gets the
  failure \<open>Request validation failed:\<close> with all violations, joined by newlines, and the
  error flag; and a request to the API is sent only when the validation has returned
  \<open>isValid = True\<close>.
\<close>

theorem invalid_request_is_never_sent:
  assumes run: "invokeApiTool USER_ENVIRONMENT USER_TOKEN ajv ajvLoose axiosGet jsonParse yamlLoad
                  axiosRequest stringify input = Some (res, sent)"
  shows "(\<forall>openApiDoc u v.
            parseOpenApiDoc axiosGet jsonParse yamlLoad (arg_specTitle input)
                (arg_operationId input) RECALL_SPEC_WITH_FIELD_URL = Returned openApiDoc
            \<and> replaceDomainNameByEnvironment USER_ENVIRONMENT (arg_url input) = Some u
            \<and> validateRequestParameters ajv ajvLoose u openApiDoc (arg_method input)
                 \<lparr>urlVariables = arg_urlVariables input,
                  urlQueryParams = map_option (map (\<lambda>(k, v). (k, JStr v))) (arg_urlQueryParams input),
                  headers = Some (buildHeadersFromInput USER_ENVIRONMENT USER_TOKEN
                                    (arg_headers input) False),
                  inputRequestBody = arg_requestBody input\<rparr> = Some v
            \<and> \<not> isValid v
            \<longrightarrow> (\<forall>req. ApiRequest req \<notin> set sent)
                \<and> res = \<lparr>result_content = [''Request validation failed:'',
                                            join [CHR 0x0A] (errors v)],
                         isError = True\<rparr>)
       \<and> (\<forall>req. ApiRequest req \<in> set sent
            \<longrightarrow> (\<exists>openApiDoc u v.
                   parseOpenApiDoc axiosGet jsonParse yamlLoad (arg_specTitle input)
                       (arg_operationId input) RECALL_SPEC_WITH_FIELD_URL = Returned openApiDoc
                   \<and> replaceDomainNameByEnvironment USER_ENVIRONMENT (arg_url input) = Some u
                   \<and> validateRequestParameters ajv ajvLoose u openApiDoc (arg_method input)
                        \<lparr>urlVariables = arg_urlVariables input,
                         urlQueryParams = map_option (map (\<lambda>(k, v). (k, JStr v)))
                                            (arg_urlQueryParams input),
                         headers = Some (buildHeadersFromInput USER_ENVIRONMENT USER_TOKEN
                                           (arg_headers input) False),
                         inputRequestBody = arg_requestBody input\<rparr> = Some v
                   \<and> isValid v))"
proof (rule conjI, rule allI, rule allI, rule allI, rule impI)
  fix openApiDoc u v
  assume a: "parseOpenApiDoc axiosGet jsonParse yamlLoad (arg_specTitle input)
                (arg_operationId input) RECALL_SPEC_WITH_FIELD_URL = Returned openApiDoc
            \<and> replaceDomainNameByEnvironment USER_ENVIRONMENT (arg_url input) = Some u
            \<and> validateRequestParameters ajv ajvLoose u openApiDoc (arg_method input)
                 \<lparr>urlVariables = arg_urlVariables input,
                  urlQueryParams = map_option (map (\<lambda>(k, v). (k, JStr v))) (arg_urlQueryParams input),
                  headers = Some (buildHeadersFromInput USER_ENVIRONMENT USER_TOKEN
                                    (arg_headers input) False),
                  inputRequestBody = arg_requestBody input\<rparr> = Some v
            \<and> \<not> isValid v"
  with run show "(\<forall>req. ApiRequest req \<notin> set sent)
                \<and> res = \<lparr>result_content = [''Request validation failed:'',
                                            join [CHR 0x0A] (errors v)],
                         isError = True\<rparr>"
    by (auto simp: invokeApiTool_def Let_def)
next
  have "\<And>req. ApiRequest req \<in> set sent \<Longrightarrow> (\<exists>openApiDoc u v.
                   parseOpenApiDoc axiosGet jsonParse yamlLoad (arg_specTitle input)
                       (arg_operationId input) RECALL_SPEC_WITH_FIELD_URL = Returned openApiDoc
                   \<and> replaceDomainNameByEnvironment USER_ENVIRONMENT (arg_url input) = Some u
                   \<and> validateRequestParameters ajv ajvLoose u openApiDoc (arg_method input)
                        \<lparr>urlVariables = arg_urlVariables input,
                         urlQueryParams = map_option (map (\<lambda>(k, v). (k, JStr v)))
                                            (arg_urlQueryParams input),
                         headers = Some (buildHeadersFromInput USER_ENVIRONMENT USER_TOKEN
                                           (arg_headers input) False),
                         inputRequestBody = arg_requestBody input\<rparr> = Some v
                   \<and> isValid v)"
    using run
    by (auto simp: invokeApiTool_def Let_def split: attempt.splits option.splits if_splits)
  then show "\<forall>req. ApiRequest req \<in> set sent \<longrightarrow> (\<exists>openApiDoc u v.
                   parseOpenApiDoc axiosGet jsonParse yamlLoad (arg_specTitle input)
                       (arg_operationId input) RECALL_SPEC_WITH_FIELD_URL = Returned openApiDoc
                   \<and> replaceDomainNameByEnvironment USER_ENVIRONMENT (arg_url input) = Some u
                   \<and> validateRequestParameters ajv ajvLoose u openApiDoc (arg_method input)
                        \<lparr>urlVariables = arg_urlVariables input,
                         urlQueryParams = map_option (map (\<lambda>(k, v). (k, JStr v)))
                                            (arg_urlQueryParams input),
                         headers = Some (buildHeadersFromInput USER_ENVIRONMENT USER_TOKEN
                                           (arg_headers input) False),
                         inputRequestBody = arg_requestBody input\<rparr> = Some v
                   \<and> isValid v)"
    by blast
qed

theorem invalid_request_is_never_sent_witness:
  "(\<exists>res sent.
      invokeApiTool PRODUCTION ''t0k'' ajvTypes ajvTypes (\<lambda>u. Returned ''{}'') (\<lambda>s. Returned browseDoc)
        (\<lambda>s. Returned emptyDocument) (\<lambda>q. Returned (JStr ''ok'')) (\<lambda>d. ''json'')
        (invokeGetItem (Some [])) = Some (res, sent)
      \<and> (\<forall>req. ApiRequest req \<notin> set sent)
      \<and> res = \<lparr>result_content =
                  [''Request validation failed:'',
                   join [CHR 0x0A] [''Missing required path parameter: item_id'',
                                    ''Missing required path parameters: item_id'']],
                isError = True\<rparr>)
   \<and> (\<exists>res sent req v.
        invokeApiTool PRODUCTION ''t0k'' ajvTypes ajvTypes (\<lambda>u. Returned ''{}'') (\<lambda>s. Returned browseDoc)
          (\<lambda>s. Returned emptyDocument) (\<lambda>q. Returned (JStr ''ok'')) (\<lambda>d. ''json'')
          (invokeGetItem (Some [(''item_id'', JStr ''v1|1|0'')])) = Some (res, sent)
        \<and> ApiRequest req \<in> set sent
        \<and> validateRequestParameters ajvTypes ajvTypes itemUrl browseDoc ''GET''
             \<lparr>urlVariables = Some [(''item_id'', JStr ''v1|1|0'')],
              urlQueryParams = Some [(''fieldgroups'', JStr ''PRODUCT'')],
              headers = Some (buildHeadersFromInput PRODUCTION ''t0k''
                                (Some [(''X-EBAY-C-MARKETPLACE-ID'', [''EBAY_US''])]) False),
              inputRequestBody = Some [(''note'', JStr ''x'')]\<rparr> = Some v
        \<and> isValid v)"
proof (rule conjI)
  let ?failure = "\<lparr>result_content =
                  [''Request validation failed:'',
                   join [CHR 0x0A] [''Missing required path parameter: item_id'',
                                    ''Missing required path parameters: item_id'']],
                isError = True\<rparr>"
  let ?lookup = "Lookup (utilFormat RECALL_SPEC_WITH_FIELD_URL [''Browse API'', ''getItem''])"
  have run: "invokeApiTool PRODUCTION ''t0k'' ajvTypes ajvTypes (\<lambda>u. Returned ''{}'') (\<lambda>s. Returned browseDoc)
        (\<lambda>s. Returned emptyDocument) (\<lambda>q. Returned (JStr ''ok'')) (\<lambda>d. ''json'')
        (invokeGetItem (Some [])) = Some (?failure, [?lookup])"
    using parse_browseDoc replaceDomain_itemUrl invoke_without_item_id
    by (simp add: invokeApiTool_def invokeGetItem_def Let_def)
  from invalid_request_is_never_sent [OF run, THEN conjunct1, rule_format,
         of browseDoc itemUrl "\<lparr>isValid = False,
           errors = [''Missing required path parameter: item_id'',
                     ''Missing required path parameters: item_id'']\<rparr>"]
    parse_browseDoc replaceDomain_itemUrl invoke_without_item_id
  have "\<forall>req. ApiRequest req \<notin> set [?lookup]"
    by (simp add: invokeGetItem_def)
  with run show "\<exists>res sent.
      invokeApiTool PRODUCTION ''t0k'' ajvTypes ajvTypes (\<lambda>u. Returned ''{}'') (\<lambda>s. Returned browseDoc)
        (\<lambda>s. Returned emptyDocument) (\<lambda>q. Returned (JStr ''ok'')) (\<lambda>d. ''json'')
        (invokeGetItem (Some [])) = Some (res, sent)
      \<and> (\<forall>req. ApiRequest req \<notin> set sent)
      \<and> res = ?failure"
    by blast
next
  let ?lookup = "Lookup (utilFormat RECALL_SPEC_WITH_FIELD_URL [''Browse API'', ''getItem''])"
  let ?hs = "buildHeadersFromInput PRODUCTION ''t0k''
               (Some [(''X-EBAY-C-MARKETPLACE-ID'', [''EBAY_US''])]) False"
  let ?req = "\<lparr>req_url = itemUrl, req_method = ''GET'', req_headers = ?hs,
               req_params = Some [(''fieldgroups'', ''PRODUCT'')],
               req_data = Some [(''note'', JStr ''x'')]\<rparr>"
  have run: "invokeApiTool PRODUCTION ''t0k'' ajvTypes ajvTypes (\<lambda>u. Returned ''{}'') (\<lambda>s. Returned browseDoc)
          (\<lambda>s. Returned emptyDocument) (\<lambda>q. Returned (JStr ''ok'')) (\<lambda>d. ''json'')
          (invokeGetItem (Some [(''item_id'', JStr ''v1|1|0'')]))
        = Some (\<lparr>result_content = [''ok''], isError = False\<rparr>, [?lookup, ApiRequest ?req])"
    using parse_browseDoc replaceDomain_itemUrl invoke_with_item_id finalUrl_itemUrl
    by (simp add: invokeApiTool_def invokeGetItem_def Let_def)
  have sent: "ApiRequest ?req \<in> set [?lookup, ApiRequest ?req]"
    by simp
  from invalid_request_is_never_sent [OF run, THEN conjunct2, rule_format, OF sent]
  obtain d u v where
    "parseOpenApiDoc (\<lambda>u. Returned ''{}'') (\<lambda>s. Returned browseDoc) (\<lambda>s. Returned emptyDocument)
       (arg_specTitle (invokeGetItem (Some [(''item_id'', JStr ''v1|1|0'')])))
       (arg_operationId (invokeGetItem (Some [(''item_id'', JStr ''v1|1|0'')])))
       RECALL_SPEC_WITH_FIELD_URL = Returned d"
    "replaceDomainNameByEnvironment PRODUCTION
       (arg_url (invokeGetItem (Some [(''item_id'', JStr ''v1|1|0'')]))) = Some u"
    "validateRequestParameters ajvTypes ajvTypes u d
       (arg_method (invokeGetItem (Some [(''item_id'', JStr ''v1|1|0'')])))
       \<lparr>urlVariables = arg_urlVariables (invokeGetItem (Some [(''item_id'', JStr ''v1|1|0'')])),
        urlQueryParams = map_option (map (\<lambda>(k, v). (k, JStr v)))
           (arg_urlQueryParams (invokeGetItem (Some [(''item_id'', JStr ''v1|1|0'')]))),
        headers = Some (buildHeadersFromInput PRODUCTION ''t0k''
           (arg_headers (invokeGetItem (Some [(''item_id'', JStr ''v1|1|0'')]))) False),
        inputRequestBody = arg_requestBody (invokeGetItem (Some [(''item_id'', JStr ''v1|1|0'')]))\<rparr>
       = Some v"
    "isValid v"
    by blast
  with parse_browseDoc replaceDomain_itemUrl
  have "validateRequestParameters ajvTypes ajvTypes itemUrl browseDoc ''GET''
             \<lparr>urlVariables = Some [(''item_id'', JStr ''v1|1|0'')],
              urlQueryParams = Some [(''fieldgroups'', JStr ''PRODUCT'')],
              headers = Some ?hs,
              inputRequestBody = Some [(''note'', JStr ''x'')]\<rparr> = Some v \<and> isValid v"
    by (simp add: invokeGetItem_def)
  with run sent show "\<exists>res sent req v.
        invokeApiTool PRODUCTION ''t0k'' ajvTypes ajvTypes (\<lambda>u. Returned ''{}'') (\<lambda>s. Returned browseDoc)
          (\<lambda>s. Returned emptyDocument) (\<lambda>q. Returned (JStr ''ok'')) (\<lambda>d. ''json'')
          (invokeGetItem (Some [(''item_id'', JStr ''v1|1|0'')])) = Some (res, sent)
        \<and> ApiRequest req \<in> set sent
        \<and> validateRequestParameters ajvTypes ajvTypes itemUrl browseDoc ''GET''
             \<lparr>urlVariables = Some [(''item_id'', JStr ''v1|1|0'')],
              urlQueryParams = Some [(''fieldgroups'', JStr ''PRODUCT'')],
              headers = Some ?hs,
              inputRequestBody = Some [(''note'', JStr ''x'')]\<rparr> = Some v
        \<and> isValid v"
    by blast
qed

subsection \<open>Claims on the conversion of query values\<close>

text \<open>
  C4. The conversion of query values before schema validation, on the three inputs of the
  claim: against a boolean schema \<open>"true"\<close> in any case becomes \<open>true\<close> and validates;
  against an integer schema \<open>"abc"\<close> becomes \<open>NaN\<close> and fails; against an array-of-integer
  schema with style \<open>form\<close>, not exploded, \<open>"3,4,5"\<close> is split at the commas into the
  strings \<open>"3"\<close>, \<open>"4"\<close>, \<open>"5"\<close>, which are not converted to integers, so that the
  validation of the array fails on each item; and when the parameter declares no style
  the string is not split at all and fails as a non-array.
\<close>

theorem query_coercion_on_the_three_inputs:
  "coerceQueryValue soldParam (JStr ''TRUE'') = Some (JBool True)
   \<and> validateUrlQueryParam ajvTypes (Some [(''sold'', JStr ''true'')])
         (Some [ParameterObject soldParam]) [] = Some []
   \<and> coerceQueryValue limitParam (JStr ''abc'') = Some (JNum NaN)
   \<and> validateUrlQueryParam ajvTypes (Some [(''limit'', JStr ''abc'')])
         (Some [ParameterObject limitParam]) []
       = Some [''Invalid query parameter limit: data must be integer'']
   \<and> coerceQueryValue idsParam (JStr ''3,4,5'') = Some (JArr [JStr ''3'', JStr ''4'', JStr ''5''])
   \<and> coerceQueryValue idsParam (JStr ''3,4,5'')
       \<noteq> Some (JArr [JNum (Fin 3), JNum (Fin 4), JNum (Fin 5)])
   \<and> validateUrlQueryParam ajvTypes (Some [(''ids'', JStr ''3,4,5'')])
         (Some [ParameterObject idsParam]) []
       = Some [''Invalid query parameter ids: data/0 must be integer, data/1 must be integer, data/2 must be integer'']
   \<and> coerceQueryValue (idsParam\<lparr>style := None\<rparr>) (JStr ''3,4,5'') = Some (JStr ''3,4,5'')
   \<and> validateUrlQueryParam ajvTypes (Some [(''ids'', JStr ''3,4,5'')])
         (Some [ParameterObject (idsParam\<lparr>style := None\<rparr>)]) []
       = Some [''Invalid query parameter ids: data must be array'']"
proof -
  have 1: "coerceQueryValue soldParam (JStr ''TRUE'') = Some (JBool True)"
    by code_simp
  have 2: "validateUrlQueryParam ajvTypes (Some [(''sold'', JStr ''true'')])
         (Some [ParameterObject soldParam]) [] = Some []"
    by code_simp
  have 3: "coerceQueryValue limitParam (JStr ''abc'') = Some (JNum NaN)"
    by code_simp
  have 4: "validateUrlQueryParam ajvTypes (Some [(''limit'', JStr ''abc'')])
         (Some [ParameterObject limitParam]) []
       = Some [''Invalid query parameter limit: data must be integer'']"
    by code_simp
  have 5: "coerceQueryValue idsParam (JStr ''3,4,5'') = Some (JArr [JStr ''3'', JStr ''4'', JStr ''5''])"
    by code_simp
  have 6: "validateUrlQueryParam ajvTypes (Some [(''ids'', JStr ''3,4,5'')])
         (Some [ParameterObject idsParam]) []
       = Some [''Invalid query parameter ids: data/0 must be integer, data/1 must be integer, data/2 must be integer'']"
    by code_simp
  have 7: "coerceQueryValue (idsParam\<lparr>style := None\<rparr>) (JStr ''3,4,5'') = Some (JStr ''3,4,5'')"
    by code_simp
  have 8: "validateUrlQueryParam ajvTypes (Some [(''ids'', JStr ''3,4,5'')])
         (Some [ParameterObject (idsParam\<lparr>style := None\<rparr>)]) []
       = Some [''Invalid query parameter ids: data must be array'']"
    by code_simp
  from 1 2 3 4 5 6 7 8 show ?thesis by simp
qed

subsection \<open>Claims on path resolution\<close>





subsection \<open>Claims on environment domain rewriting\<close>

text \<open>
  C5. Environment domain rewriting on the URLs it returns on: a URL that parses and whose
  host is already the domain of the configured environment is returned unchanged; for
  every URL that parses, applying the function to its result gives that result again; and
  for a string that does not parse, where the fallback replaces the first occurrence only
  of the other environment's domain, applying the function to its result gives that result
  again whenever the result holds no occurrence of the other environment's domain.
\<close>

theorem domain_rewriting_is_idempotent_when_parsed:
  assumes "replaceDomainNameByEnvironment USER_ENVIRONMENT u = Some v"
  shows "(\<forall>urlObj. newURL u = UrlOk urlObj \<and> hostname urlObj = DOMAIN_NAME USER_ENVIRONMENT
            \<longrightarrow> v = u)
       \<and> (\<forall>urlObj. newURL u = UrlOk urlObj
            \<longrightarrow> replaceDomainNameByEnvironment USER_ENVIRONMENT v = Some v)
       \<and> (newURL u = UrlThrows
            \<and> (\<forall>e. e \<noteq> USER_ENVIRONMENT \<longrightarrow> \<not> includes_str v (DOMAIN_NAME e))
            \<longrightarrow> replaceDomainNameByEnvironment USER_ENVIRONMENT v = Some v)"
proof (intro conjI allI impI)
  fix urlObj
  assume "newURL u = UrlOk urlObj \<and> hostname urlObj = DOMAIN_NAME USER_ENVIRONMENT"
  with assms show "v = u"
    by (auto simp: replaceDomainNameByEnvironment_def Let_def)
next
  fix urlObj
  assume "newURL u = UrlOk urlObj"
  from replaceDomain_parsed_idem [OF this assms]
  show "replaceDomainNameByEnvironment USER_ENVIRONMENT v = Some v" .
next
  assume a: "newURL u = UrlThrows
            \<and> (\<forall>e. e \<noteq> USER_ENVIRONMENT \<longrightarrow> \<not> includes_str v (DOMAIN_NAME e))"
  with assms have v: "v = replaceDomainFallback USER_ENVIRONMENT DOMAIN_NAME_entries u"
    by (simp add: replaceDomainNameByEnvironment_def)
  from a have "newURL v = UrlThrows"
    unfolding v by (intro fallback_throws) simp
  moreover from a have "replaceDomainFallback USER_ENVIRONMENT DOMAIN_NAME_entries v = v"
    by (intro fallback_fixed) simp
  ultimately show "replaceDomainNameByEnvironment USER_ENVIRONMENT v = Some v"
    by (simp add: replaceDomainNameByEnvironment_def)
qed

theorem domain_rewriting_is_idempotent_when_parsed_witness:
  "replaceDomainNameByEnvironment SANDBOX ''https://api.sandbox.ebay.com/sell/feed/v1/task''
     = Some ''https://api.sandbox.ebay.com/sell/feed/v1/task''
   \<and> replaceDomainNameByEnvironment SANDBOX ''https://api.ebay.com/buy/browse/v1/item/{item_id}?fieldgroups=PRODUCT''
     = Some ''https://api.sandbox.ebay.com/buy/browse/v1/item/%7Bitem_id%7D?fieldgroups=PRODUCT''
   \<and> replaceDomainNameByEnvironment SANDBOX
         ''https://api.sandbox.ebay.com/buy/browse/v1/item/%7Bitem_id%7D?fieldgroups=PRODUCT''
     = Some ''https://api.sandbox.ebay.com/buy/browse/v1/item/%7Bitem_id%7D?fieldgroups=PRODUCT''
   \<and> replaceDomainNameByEnvironment PRODUCTION ''api.sandbox.ebay.com/sell/feed/v1/task''
     = Some ''api.ebay.com/sell/feed/v1/task''
   \<and> replaceDomainNameByEnvironment PRODUCTION ''api.ebay.com/sell/feed/v1/task''
     = Some ''api.ebay.com/sell/feed/v1/task''"
proof -
  let ?same = "''https://api.sandbox.ebay.com/sell/feed/v1/task''"
  let ?prod = "''https://api.ebay.com/buy/browse/v1/item/{item_id}?fieldgroups=PRODUCT''"
  let ?sand = "''https://api.sandbox.ebay.com/buy/browse/v1/item/%7Bitem_id%7D?fieldgroups=PRODUCT''"
  let ?bare = "''api.sandbox.ebay.com/sell/feed/v1/task''"
  let ?bare' = "''api.ebay.com/sell/feed/v1/task''"
  have r1: "replaceDomainNameByEnvironment SANDBOX ?same = Some ?same"
    by code_simp
  have p1: "newURL ?same = UrlOk \<lparr>protocol = ''https:'', hostname = ''api.sandbox.ebay.com'',
                                   pathname = ''/sell/feed/v1/task'', rawQuery = []\<rparr>"
    by code_simp
  have r2: "replaceDomainNameByEnvironment SANDBOX ?prod = Some ?sand"
    by code_simp
  have p2: "newURL ?prod = UrlOk \<lparr>protocol = ''https:'', hostname = ''api.ebay.com'',
                                   pathname = ''/buy/browse/v1/item/%7Bitem_id%7D'',
                                   rawQuery = ''?fieldgroups=PRODUCT''\<rparr>"
    by code_simp
  have r3: "replaceDomainNameByEnvironment PRODUCTION ?bare = Some ?bare'"
    by code_simp
  have p3: "newURL ?bare = UrlThrows"
    by code_simp
  have clean: "\<not> includes_str ?bare' (DOMAIN_NAME SANDBOX)"
    by code_simp
  have other: "\<forall>e. e \<noteq> PRODUCTION \<longrightarrow> \<not> includes_str ?bare' (DOMAIN_NAME e)"
  proof (intro allI impI)
    fix e :: ApiEnvironment
    assume "e \<noteq> PRODUCTION"
    then have "e = SANDBOX" by (cases e) simp_all
    with clean show "\<not> includes_str ?bare' (DOMAIN_NAME e)" by simp
  qed
  from domain_rewriting_is_idempotent_when_parsed [OF r1] p1
  have a: "?same = ?same" by simp
  from domain_rewriting_is_idempotent_when_parsed [OF r2] p2
  have b: "replaceDomainNameByEnvironment SANDBOX ?sand = Some ?sand" by simp
  from domain_rewriting_is_idempotent_when_parsed [OF r3] p3 other
  have c: "replaceDomainNameByEnvironment PRODUCTION ?bare' = Some ?bare'" by blast
  from a r1 r2 b r3 c show ?thesis by blast
qed

theorem fallback_rewriting_twice_counterexample:
  "replaceDomainNameByEnvironment PRODUCTION
       ''api.sandbox.ebay.com/sell/feed/v1/task?origin=api.sandbox.ebay.com''
     = Some ''api.ebay.com/sell/feed/v1/task?origin=api.sandbox.ebay.com''
   \<and> replaceDomainNameByEnvironment PRODUCTION
       ''api.ebay.com/sell/feed/v1/task?origin=api.sandbox.ebay.com''
     = Some ''api.ebay.com/sell/feed/v1/task?origin=api.ebay.com''
   \<and> ''api.ebay.com/sell/feed/v1/task?origin=api.ebay.com''
     \<noteq> ''api.ebay.com/sell/feed/v1/task?origin=api.sandbox.ebay.com''"
proof -
  have 1: "replaceDomainNameByEnvironment PRODUCTION
       ''api.sandbox.ebay.com/sell/feed/v1/task?origin=api.sandbox.ebay.com''
     = Some ''api.ebay.com/sell/feed/v1/task?origin=api.sandbox.ebay.com''"
    by code_simp
  have 2: "replaceDomainNameByEnvironment PRODUCTION
       ''api.ebay.com/sell/feed/v1/task?origin=api.sandbox.ebay.com''
     = Some ''api.ebay.com/sell/feed/v1/task?origin=api.ebay.com''"
    by code_simp
  have 3: "''api.ebay.com/sell/feed/v1/task?origin=api.ebay.com''
     \<noteq> ''api.ebay.com/sell/feed/v1/task?origin=api.sandbox.ebay.com''"
    by simp
  from 1 2 3 show ?thesis by blast
qed

end
